theory Spec2Isabelle
  imports Complex_Main "HOL-Library.AList"
begin

section \<open>Errors\<close>

text \<open>
  Every exception the modelled code can raise is a value.  A function that can raise
  returns \<open>error + 'a\<close>, with \<open>Inl\<close> for the exception.
\<close>

datatype error =
    ValueError string
  | OSError
  | KeyError string
  | IndexError
  | TypeError
  | AssertionError string
  | ConversionError
  | DuplicateKeyError
  | AttributeError string
  | UnboundLocalError string
  | StopIteration

section \<open>The availability probe (\<open>functions.hdf5_availability\<close>)\<close>

text \<open>
  The file system is outside the program: \<open>file_free k\<close> tells whether the
  \<open>k\<close>-th call of \<open>h5py.File(filename, 'r+')\<close> (counted from 0) succeeds.  What the
  probe does is recorded as a trace of events, so that the order of opens and sleeps
  can be stated.
\<close>

datatype event = Opened | OpenFailed | Sleep real

text \<open>
  The loop \<open>while i: ... i -= 1\<close>.  The counter \<open>i\<close> is \<open>None\<close> for
  \<open>np.inf\<close> (which is truthy and stays \<open>inf\<close> when decremented).  The second
  argument is the number of opens made so far.  When the loop is left without a
  return, the last \<open>OSError\<close> is raised.  A loop that never ends has the value
  \<open>None\<close>.
\<close>

partial_function (option) availability_loop ::
  "(nat \<Rightarrow> bool) \<Rightarrow> real \<Rightarrow> int option \<Rightarrow> nat \<Rightarrow> event list
     \<Rightarrow> ((error + unit) \<times> event list) option" where
  [code]: "availability_loop file_free timeout i k tr =
     (if i = Some 0 then Some (Inl OSError, tr)
      else if file_free k then Some (Inr (), tr @ [Opened])
      else availability_loop file_free timeout (map_option (\<lambda>n. n - 1) i) (Suc k)
             (tr @ [OpenFailed, Sleep timeout]))"

text \<open>
  \<open>i = max_attempts if max_attempts is not None else np.inf\<close>, then the test
  \<open>i <= 0\<close>, then the loop.  The message of the \<open>ValueError\<close> is kept without its
  tail \<open>; observed value: {i!r}\<close> and without the quotes around the parameter name.
\<close>

definition hdf5_availability ::
  "(nat \<Rightarrow> bool) \<Rightarrow> real \<Rightarrow> int option \<Rightarrow> ((error + unit) \<times> event list) option" where
  "hdf5_availability file_free timeout max_attempts =
     (case max_attempts of
        Some i \<Rightarrow>
          if i \<le> 0 then Some (Inl (ValueError ''max_attempts must be larger than 0''), [])
          else availability_loop file_free timeout (Some i) 0 []
      | None \<Rightarrow> availability_loop file_free timeout None 0 [])"

text \<open>The trace of \<open>n\<close> failed attempts, each followed by its sleep.\<close>

definition failed_attempts :: "real \<Rightarrow> nat \<Rightarrow> event list" where
  "failed_attempts timeout n = concat (replicate n [OpenFailed, Sleep timeout])"

text \<open>
  \<open>first_free file_free k n\<close>: counted from open number \<open>k\<close>, the first open that
  succeeds is the one after \<open>n\<close> failed ones.
\<close>

definition first_free :: "(nat \<Rightarrow> bool) \<Rightarrow> nat \<Rightarrow> nat \<Rightarrow> bool" where
  "first_free file_free k n \<longleftrightarrow> file_free (k + n) \<and> (\<forall>j<n. \<not> file_free (k + j))"

section \<open>Arrays and datasets\<close>

text \<open>
  One stored value.  \<open>NaN\<close> is the float that is not a number; the other floats are
  taken as reals, since the code modelled here only stores and compares them.
\<close>

datatype cell = IntC int | FloatC real | NaN | BoolC bool | TextC string

text \<open>
  A NumPy array of one or two dimensions: \<open>shape1 = None\<close> for a 1-D array, whose rows
  are the one-element lists of its values, and \<open>shape1 = Some w\<close> for a 2-D array of
  \<open>w\<close> columns.  So \<open>len(ar)\<close> is \<open>length (rows ar)\<close> in both cases, and the shape is
  known when there is no row.
\<close>

record ndarray =
  shape1 :: "nat option"
  rows :: "cell list list"

text \<open>
  An \<open>h5py.Dataset\<close>: an array in the file, with its element type, the value that fills the cells no
  write has reached, and the dimension scale attached to its axis 0 (the object
  reference of the scale's dataset), if any.  The datasets are growable without bound
  along both axes.
\<close>

datatype dtype = Int64 | Float64 | Bool8 | Text

record dataset = ndarray +
  dtype :: dtype
  fillvalue :: cell
  dim0_scale :: "nat option"

definition row_width :: "nat option \<Rightarrow> nat" where
  "row_width s1 = (case s1 of None \<Rightarrow> 1 | Some w \<Rightarrow> w)"

definition fit_row :: "nat \<Rightarrow> cell \<Rightarrow> cell list \<Rightarrow> cell list" where
  "fit_row w f r = take w r @ replicate (w - length r) f"

text \<open>
  \<open>dataset.shape = (n, w)\<close>, that is \<open>dataset.resize\<close>: the cells that stay keep their
  value at their coordinates, the new ones hold the fill value.
\<close>

definition resize :: "dataset \<Rightarrow> nat \<Rightarrow> nat option \<Rightarrow> dataset" where
  "resize d n s1 =
     d\<lparr>shape1 := s1,
       rows := map (fit_row (row_width s1) (fillvalue d)) (take n (rows d))
               @ replicate (n - length (rows d)) (replicate (row_width s1) (fillvalue d))\<rparr>"

text \<open>A group of the file, as far as its datasets go: \<open>group[name]\<close> is a lookup.\<close>

type_synonym h5group = "string \<rightharpoonup> dataset"

section \<open>Shape management of the structural datasets (\<open>functions.py\<close>)\<close>

text \<open>
  \<open>pdb.items()\<close> is the list of the container's (dataset name, array) pairs.
  \<open>update_pdb_shape\<close> adds \<open>len(ar)\<close> to the axis-0 length of each named dataset and
  raises its width to the array's, if that is larger.  \<open>group[name]\<close> raises
  \<open>KeyError\<close>; \<open>shape[1]\<close> of a 1-D dataset raises \<open>IndexError\<close>.
\<close>

fun update_pdb_shape :: "h5group \<Rightarrow> (string \<times> ndarray) list \<Rightarrow> error + h5group" where
  "update_pdb_shape grp [] = Inr grp"
| "update_pdb_shape grp ((name, ar) # pdb) =
     (case grp name of
        None \<Rightarrow> Inl (KeyError name)
      | Some dataset \<Rightarrow>
          (let shape0 = length (rows dataset) + length (rows ar) in
           case shape1 ar of
             None \<Rightarrow>
               update_pdb_shape
                 (grp(name \<mapsto> resize dataset shape0 (shape1 dataset))) pdb
           | Some j \<Rightarrow>
               (case shape1 dataset of
                  None \<Rightarrow> Inl IndexError
                | Some w \<Rightarrow>
                    update_pdb_shape
                      (grp(name \<mapsto> resize dataset shape0 (Some (max w j)))) pdb)))"

text \<open>
  The assignments \<open>dataset[-i:] = ar\<close> and \<open>dataset[-i:, :j] = ar\<close>, with \<open>i = len(ar)\<close>.
  The slice \<open>-i:\<close> selects the last \<open>i\<close> rows, and all rows when \<open>i = 0\<close> or when
  the dataset has fewer than \<open>i\<close> rows; \<open>:j\<close> selects the first \<open>j\<close> columns, or all
  of them when there are fewer.  h5py raises \<open>TypeError\<close> when the array does not have
  the shape of the selection.  The model covers an array of the dataset's
  dimensionality; it gives \<open>TypeError\<close> otherwise.
\<close>

definition assign_tail :: "dataset \<Rightarrow> ndarray \<Rightarrow> error + dataset" where
  "assign_tail dataset ar =
     (let n = length (rows dataset);
          i = length (rows ar);
          start = (if i = 0 then 0 else n - i)
      in if n - start \<noteq> i then Inl TypeError
         else case (shape1 ar, shape1 dataset) of
             (None, None) \<Rightarrow>
               Inr (dataset\<lparr>rows := take start (rows dataset) @ rows ar\<rparr>)
           | (Some j, Some w) \<Rightarrow>
               if w < j then Inl TypeError
               else Inr (dataset\<lparr>rows := take start (rows dataset)
                      @ map2 (\<lambda>a old. a @ drop j old) (rows ar) (drop start (rows dataset))\<rparr>)
           | _ \<Rightarrow> Inl TypeError)"

fun append_values :: "h5group \<Rightarrow> (string \<times> ndarray) list \<Rightarrow> error + h5group" where
  "append_values grp [] = Inr grp"
| "append_values grp ((name, ar) # pdb) =
     (case grp name of
        None \<Rightarrow> Inl (KeyError name)
      | Some dataset \<Rightarrow>
          (case assign_tail dataset ar of
             Inl e \<Rightarrow> Inl e
           | Inr dataset' \<Rightarrow> append_values (grp(name \<mapsto> dataset')) pdb))"

definition append_pdb_values :: "h5group \<Rightarrow> (string \<times> ndarray) list \<Rightarrow> error + h5group" where
  "append_pdb_values grp pdb =
     (case update_pdb_shape grp pdb of
        Inl e \<Rightarrow> Inl e
      | Inr grp' \<Rightarrow> append_values grp' pdb)"

text \<open>
  What \<open>update_pdb_shape\<close> makes of one dataset: the width it computes for an array
  of second dimension \<open>sa\<close>, and the dataset resized for the array.
\<close>

definition grown_shape1 :: "nat option \<Rightarrow> nat option \<Rightarrow> nat option" where
  "grown_shape1 sd sa = (case sa of None \<Rightarrow> sd | Some j \<Rightarrow> map_option (\<lambda>w. max w j) sd)"

definition grown :: "dataset \<Rightarrow> ndarray \<Rightarrow> dataset" where
  "grown d ar = resize d (length (rows d) + length (rows ar)) (grown_shape1 (shape1 d) (shape1 ar))"

text \<open>
  An array fits a dataset when both have the same dimensionality, and the array has a
  row unless the dataset has none (\<open>dataset[-0:]\<close> is the whole dataset).
\<close>

definition fits :: "dataset \<Rightarrow> ndarray \<Rightarrow> bool" where
  "fits d ar \<longleftrightarrow> (shape1 ar = None \<longleftrightarrow> shape1 d = None) \<and> (rows ar = [] \<longrightarrow> rows d = [])"

text \<open>A group of two structural datasets and a container of one new record.\<close>

definition example_atoms :: dataset where
  "example_atoms = \<lparr>shape1 = Some 2, rows = [[IntC 1, IntC 2]], dtype = Int64, fillvalue = IntC 0, dim0_scale = Some 0\<rparr>"

definition example_atoms_new :: ndarray where
  "example_atoms_new = \<lparr>shape1 = Some 3, rows = [[IntC 7, IntC 8, IntC 9]]\<rparr>"

definition example_count :: dataset where
  "example_count = \<lparr>shape1 = None, rows = [[IntC 2]], dtype = Int64, fillvalue = IntC 0, dim0_scale = Some 0\<rparr>"

definition example_group :: h5group where
  "example_group = [''atoms'' \<mapsto> example_atoms, ''atom_count'' \<mapsto> example_count]"

definition example_pdb :: "(string \<times> ndarray) list" where
  "example_pdb = [(''atoms'', example_atoms_new),
                  (''atom_count'', \<lparr>shape1 = None, rows = [[IntC 3]]\<rparr>)]"

definition example_appended :: h5group where
  "example_appended =
     [''atoms'' \<mapsto> example_atoms\<lparr>shape1 := Some 3,
                   rows := [[IntC 1, IntC 2, IntC 0], [IntC 7, IntC 8, IntC 9]]\<rparr>,
      ''atom_count'' \<mapsto> example_count\<lparr>rows := [[IntC 2], [IntC 3]]\<rparr>]"

section \<open>The property dataset engine (\<open>property_dset.py\<close>)\<close>

text \<open>
  Modelled from the spec: the module \<open>dataCAT/property_dset.py\<close>
  (\<open>update_prop_dset\<close>, \<open>validate_prop_group\<close>, \<open>create_prop_dset\<close>) is not among the
  source files; only its callers in \<open>database.py\<close> and its tests are.  The definitions
  of this section follow section 4.2 of the specification.

  The sentinel of an element type: \<open>-1\<close> for integers, \<open>NaN\<close> for floats, \<open>False\<close> for
  booleans, the empty text for text.
\<close>

fun sentinel :: "dtype \<Rightarrow> cell" where
  "sentinel Int64 = IntC (- 1)"
| "sentinel Float64 = NaN"
| "sentinel Bool8 = BoolC False"
| "sentinel Text = TextC []"

text \<open>
  Modelled from the spec: the \<open>index\<close> argument of \<open>update_prop_dset\<close> is an integer, a
  sequence of integers, or a slice.  The model has the slices \<open>lo:hi\<close> with both bounds
  given and not negative, which are the ones \<open>database.py\<close> builds (\<open>np.s_[i:j]\<close>);
  \<open>positions\<close> lists the rows an index addresses.
\<close>

datatype index = Position int | Positions "int list" | Slice nat nat

fun positions :: "index \<Rightarrow> int list" where
  "positions (Position p) = [p]"
| "positions (Positions ps) = ps"
| "positions (Slice lo hi) = map int [lo..<hi]"

definition sentinel_row :: "dataset \<Rightarrow> cell list" where
  "sentinel_row d = replicate (row_width (shape1 d)) (sentinel (dtype d))"

text \<open>
  Modelled from the spec: the resize of \<open>update_prop_dset\<close> to at least \<open>n\<close> rows.  It
  never truncates, and the rows it exposes hold the sentinel of the element type.
\<close>

definition expose :: "dataset \<Rightarrow> nat \<Rightarrow> dataset" where
  "expose d n = d\<lparr>rows := rows d @ replicate (n - length (rows d)) (sentinel_row d)\<rparr>"

fun write_rows :: "cell list list \<Rightarrow> (nat \<times> cell list) list \<Rightarrow> cell list list" where
  "write_rows rs [] = rs"
| "write_rows rs ((p, r) # ws) = write_rows (rs[p := r]) ws"

text \<open>
  Modelled from the spec: \<open>update_prop_dset(dset, data, index)\<close> writes the rows of
  \<open>data\<close> at the positions of \<open>index\<close>.  When the index addresses rows beyond the
  current length, the dataset is first resized to
  \<open>max(current length, max(index) + 1)\<close>.  A sequence of positions must be strictly
  ascending.  The spec gives no meaning to a negative position, to data with another
  number of rows than the index has positions, or to rows of another width than the
  dataset's: the model raises there.
\<close>

definition update_prop_dset :: "dataset \<Rightarrow> cell list list \<Rightarrow> index \<Rightarrow> error + dataset" where
  "update_prop_dset dset data index =
     (let ps = positions index in
      if list_ex (\<lambda>p. p < 0) ps then Inl IndexError
      else if \<not> sorted_wrt (<) ps then Inl TypeError
      else if length data \<noteq> length ps
              \<or> \<not> list_all (\<lambda>r. length r = row_width (shape1 dset)) data then Inl TypeError
      else
        let n = (if ps = [] then length (rows dset)
                 else max (length (rows dset)) (nat (Max (set ps)) + 1));
            d = expose dset n
        in Inr (d\<lparr>rows := write_rows (rows d) (zip (map nat ps) data)\<rparr>))"

text \<open>The length of a dataset of \<open>n\<close> rows after \<open>update_prop_dset\<close> with the index.\<close>

definition length_after :: "nat \<Rightarrow> index \<Rightarrow> nat" where
  "length_after n idx =
     (if positions idx = [] then n else max n (nat (Max (set (positions idx))) + 1))"

text \<open>
  Modelled from the spec: a property group holds a reference to the index scale its
  datasets share, and the datasets by name; the names of the sub-columns of a 2-D
  dataset are metadata of the group.  \<open>index_len\<close> is the length of the scale the
  reference points to, as read from the file.
\<close>

record prop_group =
  index_ref :: nat
  index_len :: nat
  members :: "(string \<times> dataset) list"
  sub_columns :: "(string \<times> string list) list"

text \<open>
  Modelled from the spec: \<open>validate_prop_group(group)\<close> checks of every dataset of the
  group that (a) a dimension scale is attached to its axis 0, (b) that scale is the
  group's index scale, (c) its axis-0 length is the scale's length, and raises an
  \<open>AssertionError\<close> naming the dataset and the invariant that broke.
\<close>

definition validate_dset :: "prop_group \<Rightarrow> string \<times> dataset \<Rightarrow> error + unit" where
  "validate_dset pg m =
     (case m of (name, dset) \<Rightarrow>
        case dim0_scale dset of
          None \<Rightarrow> Inl (AssertionError (name @ '': missing dataset scale''))
        | Some r \<Rightarrow>
            if r \<noteq> index_ref pg then
              Inl (AssertionError (name @ '': invalid dataset scale''))
            else if length (rows dset) \<noteq> index_len pg then
              Inl (AssertionError (name @ '': invalid dataset length''))
            else Inr ())"

fun validate_all :: "prop_group \<Rightarrow> (string \<times> dataset) list \<Rightarrow> error + unit" where
  "validate_all pg [] = Inr ()"
| "validate_all pg (m # ms) =
     (case validate_dset pg m of Inl e \<Rightarrow> Inl e | Inr _ \<Rightarrow> validate_all pg ms)"

definition validate_prop_group :: "prop_group \<Rightarrow> error + unit" where
  "validate_prop_group pg = validate_all pg (members pg)"

text \<open>
  Modelled from the spec: \<open>create_prop_dset(group, name, dtype, sub_columns)\<close> allocates
  a dataset bound to the group's index scale, 2-D with one column per name when
  sub-column names are given and 1-D otherwise.  By the invariant of section 3 of the
  specification it is as long as the scale; no row is written yet, so every row
  holds the sentinel.
\<close>

definition create_prop_dset ::
  "prop_group \<Rightarrow> string \<Rightarrow> dtype \<Rightarrow> string list option \<Rightarrow> dataset \<times> prop_group" where
  "create_prop_dset pg name dt prop_names =
     (let dset = \<lparr>shape1 = map_option length prop_names,
                  rows = replicate (index_len pg)
                           (replicate (row_width (map_option length prop_names)) (sentinel dt)),
                  dtype = dt, fillvalue = sentinel dt, dim0_scale = Some (index_ref pg)\<rparr>
      in (dset, pg\<lparr>members := members pg @ [(name, dset)],
                   sub_columns := (case prop_names of None \<Rightarrow> sub_columns pg
                                   | Some ns \<Rightarrow> sub_columns pg @ [(name, ns)])\<rparr>))"

text \<open>A dataset is aligned with a group when it meets the three invariants.\<close>

definition aligned :: "prop_group \<Rightarrow> dataset \<Rightarrow> bool" where
  "aligned pg dset \<longleftrightarrow>
     dim0_scale dset = Some (index_ref pg) \<and> length (rows dset) = index_len pg"

text \<open>
  \<open>broken pg m e\<close>: the member \<open>m\<close> of the group breaks one of the invariants, and \<open>e\<close>
  is the error that names it.
\<close>

definition broken :: "prop_group \<Rightarrow> string \<times> dataset \<Rightarrow> error \<Rightarrow> bool" where
  "broken pg m e \<longleftrightarrow>
     (dim0_scale (snd m) = None \<and> e = AssertionError (fst m @ '': missing dataset scale'')) \<or>
     ((\<exists>r. dim0_scale (snd m) = Some r \<and> r \<noteq> index_ref pg) \<and>
        e = AssertionError (fst m @ '': invalid dataset scale'')) \<or>
     (dim0_scale (snd m) = Some (index_ref pg) \<and> length (rows (snd m)) \<noteq> index_len pg \<and>
        e = AssertionError (fst m @ '': invalid dataset length''))"

text \<open>A text dataset of two rows, and the same after a write at position 4.\<close>

definition example_formula :: dataset where
  "example_formula = \<lparr>shape1 = None, rows = [[TextC ''a''], [TextC ''b'']], dtype = Text,
     fillvalue = TextC [], dim0_scale = Some 0\<rparr>"

definition example_formula' :: dataset where
  "example_formula' = example_formula\<lparr>rows :=
     [[TextC ''a''], [TextC ''b''], [TextC []], [TextC []], [TextC ''e'']]\<rparr>"

text \<open>
  The four groups of \<open>test_validate_prop_group\<close>: a dataset with no scale, one of the
  wrong length, one attached to another scale, and one made by \<open>create_prop_dset\<close>.
\<close>

definition example_int_dset :: "nat \<Rightarrow> nat option \<Rightarrow> dataset" where
  "example_int_dset n scale = \<lparr>shape1 = None, rows = replicate n [IntC 0], dtype = Int64,
     fillvalue = IntC 0, dim0_scale = scale\<rparr>"

definition example_prop_group :: "(string \<times> dataset) list \<Rightarrow> prop_group" where
  "example_prop_group ms = \<lparr>index_ref = 1, index_len = 100, members = ms, sub_columns = []\<rparr>"

section \<open>The document store mirror (\<open>Database.update_mongodb\<close>)\<close>

text \<open>
  A document is one row of the batch as \<open>df_to_mongo_dict\<close> renders it: the values of
  the index columns (the composite key, on which the collection has a unique index) and
  the nested dictionary of the other values, kept as an opaque body.  A collection
  holds at most one document per key.
\<close>

type_synonym key = "string list"

record item =
  key :: key
  body :: string

type_synonym collection = "key \<rightharpoonup> item"

record mongo_db =
  ligand_database :: collection
  qd_database :: collection

text \<open>
  A DataFrame passed to \<open>update_mongodb\<close>: whether its index and columns are
  \<open>MultiIndex\<close> instances, and its rows.  \<open>df_to_mongo_dict(df)\<close> is called with
  \<open>as_gen\<close> left at \<open>True\<close>: the result is a generator, which yields each row once.  A
  generator is modelled by the list of the rows it has not yielded yet.
\<close>

record frame =
  multi_indexed :: bool
  frame_rows :: "item list"

definition df_to_mongo_dict :: "frame \<Rightarrow> error + item list" where
  "df_to_mongo_dict df =
     (if \<not> multi_indexed df then Inl TypeError else Inr (frame_rows df))"

text \<open>
  The driver's \<open>insert_one\<close> raises \<open>DuplicateKeyError\<close> when the key is taken;
  \<open>replace_one(filter, item)\<close> replaces the document that matches the filter, and does
  nothing when there is none.
\<close>

definition insert_one :: "collection \<Rightarrow> item \<Rightarrow> error + collection" where
  "insert_one coll it =
     (case coll (key it) of
        Some _ \<Rightarrow> Inl DuplicateKeyError
      | None \<Rightarrow> Inr (coll(key it \<mapsto> it)))"

definition replace_one :: "collection \<Rightarrow> key \<Rightarrow> item \<Rightarrow> collection" where
  "replace_one coll flt it =
     (case coll flt of
        None \<Rightarrow> coll
      | Some _ \<Rightarrow> (coll(flt := None))(key it \<mapsto> it))"

text \<open>
  The driver's \<open>insert_many\<close> on a generator: it inserts the documents in order and
  raises at the first one whose key is taken; the documents before that one stay
  inserted.  To reach a document the driver has to draw it from the generator, so when
  it raises, the generator has yielded at least the documents up to the one that
  raised.  How many more the driver had drawn by then is its own business: \<open>drawn\<close> is a
  parameter, and the generator is left without its first \<open>max n drawn\<close> rows, where
  \<open>n\<close> counts the documents up to the one that raised.
\<close>

fun insert_ordered :: "collection \<Rightarrow> item list \<Rightarrow> (error + unit) \<times> collection \<times> nat" where
  "insert_ordered coll [] = (Inr (), coll, 0)"
| "insert_ordered coll (it # its) =
     (case insert_one coll it of
        Inl e \<Rightarrow> (Inl e, coll, 1)
      | Inr coll' \<Rightarrow>
          (case insert_ordered coll' its of (r, coll'', n) \<Rightarrow> (r, coll'', Suc n)))"

definition insert_many ::
  "nat \<Rightarrow> collection \<Rightarrow> item list \<Rightarrow> (error + unit) \<times> collection \<times> item list" where
  "insert_many drawn coll gen =
     (case insert_ordered coll gen of
        (r, coll', n) \<Rightarrow> (r, coll', drop (max n drawn) gen))"

text \<open>
  Plan B of \<open>update_mongodb\<close>: \<open>for item in dict_gen\<close>, over what the generator still
  yields.
\<close>

fun insert_each :: "bool \<Rightarrow> collection \<Rightarrow> item list \<Rightarrow> collection" where
  "insert_each overwrite coll [] = coll"
| "insert_each overwrite coll (it # gen) =
     (case insert_one coll it of
        Inr coll' \<Rightarrow> insert_each overwrite coll' gen
      | Inl e \<Rightarrow>
          insert_each overwrite
            (if overwrite then replace_one coll (key it) it else coll) gen)"

definition update_collection ::
  "nat \<Rightarrow> bool \<Rightarrow> collection \<Rightarrow> item list \<Rightarrow> collection" where
  "update_collection drawn overwrite coll dict_gen =
     (case insert_many drawn coll dict_gen of
        (Inr _, coll', gen') \<Rightarrow> coll'
      | (Inl e, coll', gen') \<Rightarrow> insert_each overwrite coll' gen')"

text \<open>
  The \<open>database\<close> argument: a mapping from the database name to a DataFrame, of which
  the first pair is taken, or a name.  The branch for a name reads \<open>self.csv_lig\<close>,
  an attribute that the class does not have (\<open>__slots__\<close> lists \<open>_dirname\<close>, \<open>_hdf5\<close>,
  \<open>_mongodb\<close> and \<open>_hash\<close>); another name than \<open>ligand\<close> or \<open>qd\<close> leaves \<open>manager\<close>
  unbound.  \<open>is_connected\<close> is \<open>self.mongodb is not None\<close>.
\<close>

datatype database_arg = Frames "(string \<times> frame) list" | Named string

definition update_mongodb ::
  "nat \<Rightarrow> bool \<Rightarrow> mongo_db \<Rightarrow> database_arg \<Rightarrow> bool \<Rightarrow> error + mongo_db" where
  "update_mongodb drawn is_connected db database overwrite =
     (if \<not> is_connected then Inl (ValueError ''Database.Mongodb is None'')
      else case database of
        Frames [] \<Rightarrow> Inl StopIteration
      | Frames ((name, df) # _) \<Rightarrow>
          (case df_to_mongo_dict df of
             Inl e \<Rightarrow> Inl e
           | Inr dict_gen \<Rightarrow>
               if name = ''ligand'' then
                 Inr (db\<lparr>ligand_database :=
                           update_collection drawn overwrite (ligand_database db) dict_gen\<rparr>)
               else
                 Inr (db\<lparr>qd_database :=
                           update_collection drawn overwrite (qd_database db) dict_gen\<rparr>))
      | Named name \<Rightarrow>
          if name = ''ligand'' \<or> name = ''qd'' then Inl (AttributeError ''csv_lig'')
          else Inl (UnboundLocalError ''manager''))"

text \<open>A stored document, a row with the same key and new content, and a new row.\<close>

definition example_stored :: item where
  "example_stored = \<lparr>key = [''C[O-]'', ''O2''], body = ''old''\<rparr>"

definition example_row1 :: item where
  "example_row1 = \<lparr>key = [''C[O-]'', ''O2''], body = ''new''\<rparr>"

definition example_row2 :: item where
  "example_row2 = \<lparr>key = [''CC[O-]'', ''O3''], body = ''new''\<rparr>"

definition example_mongo :: mongo_db where
  "example_mongo = \<lparr>ligand_database = [key example_stored \<mapsto> example_stored],
                     qd_database = Map.empty\<rparr>"

definition example_frame :: frame where
  "example_frame = \<lparr>multi_indexed = True, frame_rows = [example_row1, example_row2]\<rparr>"

section \<open>The structural record container and the change log\<close>

text \<open>
  Modelled from the spec: the modules \<open>dataCAT/pdb_array.py\<close> (\<open>PDBContainer\<close>) and
  \<open>dataCAT/hdf5_log.py\<close> (\<open>update_hdf5_log\<close>) are not among the source files.  The
  definitions of this section follow sections 4.3 and 4.4 of the specification.

  A molecule is taken as already serialised into its row of the atom table and its row
  of the bond table, or as one that cannot be serialised.  A container holds a batch of
  records as named 2-D arrays with one row per record, each padded to the widest row
  of the batch, and the scale values of the batch.
\<close>

datatype molecule = Molecule (mol_atoms: "cell list") (mol_bonds: "cell list") | Unserializable

record pdb_container =
  pdb_items :: "(string \<times> ndarray) list"
  pdb_scale :: "nat list"

definition DSET_NAMES :: "string list" where
  "DSET_NAMES = [''atoms'', ''bonds'']"

definition padded :: "cell list list \<Rightarrow> ndarray" where
  "padded rs =
     (let w = fold max (map length rs) 0
      in \<lparr>shape1 = Some w, rows = map (fit_row w (IntC 0)) rs\<rparr>)"

definition from_molecules :: "molecule list \<Rightarrow> nat list \<Rightarrow> error + pdb_container" where
  "from_molecules mol_list scale =
     (if list_ex (\<lambda>m. m = Unserializable) mol_list then Inl ConversionError
      else Inr \<lparr>pdb_items = [(''atoms'', padded (map mol_atoms mol_list)),
                              (''bonds'', padded (map mol_bonds mol_list))],
                 pdb_scale = scale\<rparr>)"

text \<open>
  Modelled from the spec: one entry of the change log holds the row indices touched
  and the message; the time stamp is left out, the clock being outside the program.
  The message that \<open>database.py\<close> formats, \<open>datasets=[...]; overwrite=...\<close>, is kept
  as its two parts.  \<open>update_hdf5_log\<close> appends one entry per call.
\<close>

record log_entry =
  log_index :: "int list"
  log_datasets :: "string list"
  log_overwrite :: bool

definition update_hdf5_log ::
  "log_entry list \<Rightarrow> int list \<Rightarrow> string list \<Rightarrow> bool \<Rightarrow> log_entry list" where
  "update_hdf5_log logger idx datasets overwrite =
     logger @ [\<lparr>log_index = idx, log_datasets = datasets, log_overwrite = overwrite\<rparr>]"

text \<open>
  A group of the file (\<open>f['ligand']\<close>, \<open>f['qd']\<close>): its path, the index scale
  \<open>group['index']\<close> with its object reference, the structural datasets, the datasets
  of the sub-group \<open>group['properties']\<close> with the names of their sub-columns, and
  the change log \<open>group['logger']\<close>.
\<close>

record h5_group =
  path :: string
  index_dset :: dataset
  scale_ref :: nat
  dsets :: h5group
  properties :: "(string \<times> dataset) list"
  prop_names :: "(string \<times> string list) list"
  logger :: "log_entry list"

text \<open>
  Modelled from the spec: \<open>to_hdf5(group, index, update_scale)\<close> writes each array of
  the container into the dataset of its name at the rows of \<open>index\<close>, through
  \<open>update_prop_dset\<close>, and writes the scale values of the container into the index
  scale at the same rows when \<open>update_scale\<close> is set.  By the invariant of section 3 of
  the specification every dataset is as long as the index scale, so the scale is
  resized with the datasets whether or not its values are written: without
  \<open>update_scale\<close> the entries it gains hold the sentinel, and it gains none when the
  rows of \<open>index\<close> exist already.  By the same invariant the width of a dataset grows
  to the width of the array, the new columns holding the fill value.
\<close>

fun to_hdf5_items :: "h5group \<Rightarrow> (string \<times> ndarray) list \<Rightarrow> index \<Rightarrow> error + h5group" where
  "to_hdf5_items grp [] idx = Inr grp"
| "to_hdf5_items grp ((name, ar) # items) idx =
     (case grp name of
        None \<Rightarrow> Inl (KeyError name)
      | Some dset \<Rightarrow>
          (let w = grown_shape1 (shape1 dset) (shape1 ar);
               wide = resize dset (length (rows dset)) w;
               data = map (fit_row (row_width w) (fillvalue dset)) (rows ar)
           in case update_prop_dset wide data idx of
                Inl e \<Rightarrow> Inl e
              | Inr dset' \<Rightarrow> to_hdf5_items (grp(name \<mapsto> dset')) items idx))"

definition to_hdf5 :: "pdb_container \<Rightarrow> h5_group \<Rightarrow> index \<Rightarrow> bool \<Rightarrow> error + h5_group" where
  "to_hdf5 pdb grp idx update_scale =
     (case to_hdf5_items (dsets grp) (pdb_items pdb) idx of
        Inl e \<Rightarrow> Inl e
      | Inr ds \<Rightarrow>
          (case (if update_scale then
                   update_prop_dset (index_dset grp)
                     (map (\<lambda>v. [IntC (int v)]) (pdb_scale pdb)) idx
                 else
                   Inr (expose (index_dset grp)
                          (length_after (length (rows (index_dset grp))) idx))) of
             Inl e \<Rightarrow> Inl e
           | Inr scale \<Rightarrow> Inr (grp\<lparr>dsets := ds, index_dset := scale\<rparr>)))"

section \<open>The update batch\<close>

text \<open>
  The column labels of a DataFrame: a flat \<open>Index\<close>, or a \<open>MultiIndex\<close> with its number
  of levels and its tuples.  \<open>len(getattr(columns, 'levels', ()))\<close> is \<open>nlevels\<close>.
\<close>

datatype pd_index = Index "string list" | MultiIndex nat "string list list"

fun nlevels :: "pd_index \<Rightarrow> nat" where
  "nlevels (Index _) = 0"
| "nlevels (MultiIndex n _) = n"

fun tuples :: "pd_index \<Rightarrow> string list list" where
  "tuples (Index ls) = map (\<lambda>l. [l]) ls"
| "tuples (MultiIndex n ts) = ts"

text \<open>
  \<open>columns.get_loc_level(k)[1]\<close> of a 2-level index: the second-level labels under the
  first-level label \<open>k\<close>; \<open>KeyError\<close> when there is none.
\<close>

definition get_loc_level :: "pd_index \<Rightarrow> string \<Rightarrow> error + string list" where
  "get_loc_level cols k =
     (case filter (\<lambda>t. take 1 t = [k]) (tuples cols) of
        [] \<Rightarrow> Inl (KeyError k)
      | ts \<Rightarrow> Inr (map (\<lambda>t. concat (drop 1 t)) ts))"

text \<open>
  The first-level labels of the columns, one per column.
\<close>

definition level0 :: "pd_index \<Rightarrow> string list" where
  "level0 cols = map (\<lambda>t. concat (take 1 t)) (tuples cols)"

text \<open>
  One row of the batch: its label in the row index (from which the scale value of a
  new record is taken), and its cells in the columns that \<open>CAT.workflows\<close> names
  \<open>MOL\<close>, \<open>HDF5_INDEX\<close> and \<open>OPT\<close>.  A record that has no position in the file yet
  holds \<open>-1\<close> in \<open>HDF5_INDEX\<close>, the value \<open>functions.DTYPE_DICT\<close> gives for an
  integer that is not there.  The property columns are kept by their first-level
  label, each with one list of cells (one per sub-column) per row.
\<close>

record row =
  label :: nat
  MOL :: molecule
  HDF5_INDEX :: int
  OPT :: bool

record dataframe =
  columns :: pd_index
  body :: "row list"
  prop_cols :: "(string \<times> cell list list) list"

text \<open>
  The boolean table of the shape of the batch: one bit per cell.  \<open>df_bool[n]\<close> for a
  first-level label \<open>n\<close> is a \<open>Series\<close> of one bit per row when the only sub-column
  of \<open>n\<close> has the empty label (pandas drops that level), and a \<open>DataFrame\<close> of one
  list of bits per row otherwise.
\<close>

record mask_row =
  b_HDF5_INDEX :: bool
  b_OPT :: bool

datatype mask_col = Series "bool list" | Frame "bool list list"

record maskframe =
  mask_body :: "mask_row list"
  mask_cols :: "(string \<times> mask_col) list"

text \<open>\<open>df_bool = df.copy(); df_bool[:] = True\<close>.\<close>

definition all_true :: "dataframe \<Rightarrow> maskframe" where
  "all_true df =
     \<lparr>mask_body = map (\<lambda>r. \<lparr>b_HDF5_INDEX = True, b_OPT = True\<rparr>) (body df),
      mask_cols =
        map (\<lambda>(n, c).
               (n, if get_loc_level (columns df) n = Inr [[]]
                   then Series (map (\<lambda>v. True) c)
                   else Frame (map (map (\<lambda>v. True)) c)))
          (prop_cols df)\<rparr>"

text \<open>\<open>xs[mask]\<close>: the elements at which the mask is true.\<close>

definition masked :: "bool list \<Rightarrow> 'a list \<Rightarrow> 'a list" where
  "masked bs xs = map snd (filter fst (zip bs xs))"

text \<open>
  \<open>df.loc[index, HDF5_INDEX] = hdf5_index\<close> and \<open>df.loc[index, OPT] = True\<close>, where
  \<open>index\<close> is a list of row labels: the rows of these labels take the values in order.
\<close>

fun set_hdf5_index :: "nat list \<Rightarrow> int list \<Rightarrow> row list \<Rightarrow> row list" where
  "set_hdf5_index idx ps [] = []"
| "set_hdf5_index idx [] (r # rs) = r # rs"
| "set_hdf5_index idx (p # ps) (r # rs) =
     (if label r \<in> set idx then r\<lparr>HDF5_INDEX := p\<rparr> # set_hdf5_index idx ps rs
      else r # set_hdf5_index idx (p # ps) rs)"

definition set_opt :: "nat list \<Rightarrow> row list \<Rightarrow> row list" where
  "set_opt idx rs = map (\<lambda>r. if label r \<in> set idx then r\<lparr>OPT := True\<rparr> else r) rs"

definition loc :: "nat list \<Rightarrow> row list \<Rightarrow> row list" where
  "loc idx rs = filter (\<lambda>r. label r \<in> set idx) rs"

section \<open>The update orchestrator (\<open>database.py\<close>)\<close>

text \<open>The full names of the structural datasets, for the log message.\<close>

definition dset_paths :: "h5_group \<Rightarrow> error + string list" where
  "dset_paths grp =
     (case filter (\<lambda>n. dsets grp n = None) DSET_NAMES of
        [] \<Rightarrow> Inr (map (\<lambda>n. path grp @ ''/'' @ n) DSET_NAMES)
      | n # _ \<Rightarrow> Inl (KeyError n))"

text \<open>
  \<open>Database._write_hdf5(group, df, index, opt)\<close>.  The new rows take the positions from
  \<open>len(group['atoms'])\<close> on, the positions are written back into the batch, the
  molecules are stored at these positions by \<open>to_hdf5\<close>, called with
  \<open>update_scale=not opt\<close>, and one entry is added to the log.
\<close>

definition write_hdf5 ::
  "h5_group \<Rightarrow> dataframe \<Rightarrow> nat list \<Rightarrow> bool \<Rightarrow> error + h5_group \<times> dataframe" where
  "write_hdf5 grp df idx opt =
     (let mol_series = map MOL (loc idx (body df)) in
      case dsets grp ''atoms'' of
        None \<Rightarrow> Inl (KeyError ''atoms'')
      | Some atoms \<Rightarrow>
          (let i = length (rows atoms);
               j = i + length mol_series;
               hdf5_idx = map int [i..<j];
               df1 = df\<lparr>body := set_hdf5_index idx hdf5_idx (body df)\<rparr>
           in case from_molecules mol_series idx of
                Inl e \<Rightarrow> Inl e
              | Inr pdb_new \<Rightarrow>
                  (case to_hdf5 pdb_new grp (Slice i j) (\<not> opt) of
                     Inl e \<Rightarrow> Inl e
                   | Inr grp1 \<Rightarrow>
                       (case dset_paths grp1 of
                          Inl e \<Rightarrow> Inl e
                        | Inr names \<Rightarrow>
                            Inr (grp1\<lparr>logger :=
                                        update_hdf5_log (logger grp1) hdf5_idx names False\<rparr>,
                                 if opt then df1\<lparr>body := set_opt idx (body df1)\<rparr>
                                 else df1)))))"

text \<open>
  \<open>Database._overwrite_hdf5(group, df, hdf5_series, opt)\<close>: the rows are written again
  at the positions they hold.  The call of \<open>to_hdf5\<close> gives no \<open>update_scale\<close>; step 4
  of section 4.5 of the specification has this write leave the index scale as it is.
\<close>

definition overwrite_hdf5 ::
  "h5_group \<Rightarrow> dataframe \<Rightarrow> row list \<Rightarrow> bool \<Rightarrow> error + h5_group \<times> dataframe" where
  "overwrite_hdf5 grp df hdf5_series opt =
     (let idx = map label hdf5_series;
          hdf5_idx = map HDF5_INDEX hdf5_series;
          mol_series = map MOL (loc idx (body df))
      in case from_molecules mol_series idx of
           Inl e \<Rightarrow> Inl e
         | Inr pdb_old \<Rightarrow>
             (case to_hdf5 pdb_old grp (Positions hdf5_idx) False of
                Inl e \<Rightarrow> Inl e
              | Inr grp1 \<Rightarrow>
                  (case dset_paths grp1 of
                     Inl e \<Rightarrow> Inl e
                   | Inr names \<Rightarrow>
                       Inr (grp1\<lparr>logger :=
                                   update_hdf5_log (logger grp1) hdf5_idx names True\<rparr>,
                            if opt then df\<lparr>body := set_opt idx (body df)\<rparr> else df))))"

text \<open>
  \<open>Database.update_hdf5(df, df_bool, group, overwrite, status)\<close>.  The rows are split by
  the status column of the mask; \<open>Series.any()\<close> is true when a value is not zero.
\<close>

definition update_hdf5 ::
  "dataframe \<Rightarrow> maskframe \<Rightarrow> h5_group \<Rightarrow> bool \<Rightarrow> string option
     \<Rightarrow> error + h5_group \<times> dataframe" where
  "update_hdf5 df df_bool grp overwrite status =
     (let is_opt = (status = Some ''optimized'');
          idx = map (if is_opt then b_HDF5_INDEX else b_OPT) (mask_body df_bool);
          new = masked idx (body df);
          old = masked (map Not idx) (body df)
      in case (if list_ex (\<lambda>r. HDF5_INDEX r \<noteq> 0) new
               then write_hdf5 grp df (map label new) is_opt
               else Inr (grp, df)) of
           Inl e \<Rightarrow> Inl e
         | Inr (grp1, df1) \<Rightarrow>
             if overwrite \<and> list_ex (\<lambda>r. HDF5_INDEX r \<noteq> 0) old
             then overwrite_hdf5 grp1 df1 old is_opt
             else Inr (grp1, df1))"

text \<open>
  The sub-group \<open>group['properties']\<close> as the property dataset engine sees it, and the
  group with the sub-group put back.
\<close>

definition properties_group :: "h5_group \<Rightarrow> prop_group" where
  "properties_group grp =
     \<lparr>index_ref = scale_ref grp, index_len = length (rows (index_dset grp)),
      members = properties grp, sub_columns = prop_names grp\<rparr>"

definition cell_dtype :: "cell \<Rightarrow> dtype" where
  "cell_dtype c =
     (case c of IntC _ \<Rightarrow> Int64 | FloatC _ \<Rightarrow> Float64 | NaN \<Rightarrow> Float64
      | BoolC _ \<Rightarrow> Bool8 | TextC _ \<Rightarrow> Text)"

definition data_dtype :: "cell list list \<Rightarrow> dtype" where
  "data_dtype data = (case concat data of [] \<Rightarrow> Float64 | c # _ \<Rightarrow> cell_dtype c)"

definition PORPERTY_BLACKLIST :: "string list" where
  "PORPERTY_BLACKLIST = [''mol'', ''opt'', ''hdf5 index'', ''settings'']"

text \<open>
  The body of the loop of \<open>Database._update_properties\<close> (lines 337 to 357), for the
  property column \<open>n\<close> with the sub-column names \<open>name_seq\<close>.  The rows are selected by
  \<open>df_bool[n]\<close>, or all of them when \<open>overwrite\<close> is set; \<open>df.loc[index, n]\<close> takes a
  \<open>Series\<close> of bits as a selection of rows and raises \<open>ValueError\<close> for a \<open>DataFrame\<close>.
  Then the dataset is looked up, or created; the selected values are written at the
  positions of their rows; the column is removed from the batch; one entry is added
  to the log.  A raise comes with the group as it is then.
\<close>

definition update_property ::
  "h5_group \<Rightarrow> dataframe \<Rightarrow> maskframe \<Rightarrow> bool \<Rightarrow> string \<Rightarrow> string list
     \<Rightarrow> error \<times> h5_group + h5_group \<times> dataframe" where
  "update_property grp df df_bool overwrite n name_seq =
     (case (if \<not> overwrite then
              (case map_of (mask_cols df_bool) n of
                 None \<Rightarrow> Inl (KeyError n)
               | Some (Series bs) \<Rightarrow> Inr bs
               | Some (Frame bss) \<Rightarrow>
                   Inl (ValueError ''Cannot index with multidimensional key''))
            else Inr (map (\<lambda>r. True) (body df))) of
        Inl e \<Rightarrow> Inl (e, grp)
      | Inr idx \<Rightarrow>
          (case map_of (prop_cols df) n of
             None \<Rightarrow> Inl (KeyError n, grp)
           | Some col \<Rightarrow>
               if length idx \<noteq> length (body df) \<or> length col \<noteq> length (body df)
               then Inl (IndexError, grp)
               else
                 (let data = masked idx col;
                      hdf5_idx = map HDF5_INDEX (masked idx (body df));
                      (dset, pg) =
                        (case map_of (properties grp) n of
                           Some dset \<Rightarrow> (dset, properties_group grp)
                         | None \<Rightarrow>
                             create_prop_dset (properties_group grp) n (data_dtype data)
                               (if length name_seq = 1 then None else Some name_seq))
                  in case update_prop_dset dset data (Positions hdf5_idx) of
                       Inl e \<Rightarrow>
                         Inl (e, grp\<lparr>properties := members pg, prop_names := sub_columns pg\<rparr>)
                     | Inr dset' \<Rightarrow>
                         Inr (grp\<lparr>properties := AList.update n dset' (members pg),
                                  prop_names := sub_columns pg,
                                  logger := update_hdf5_log (logger grp) hdf5_idx
                                              [path grp @ ''/properties/'' @ n] overwrite\<rparr>,
                              df\<lparr>prop_cols := AList.delete n (prop_cols df)\<rparr>))))"

text \<open>
  The loop of \<open>_update_properties\<close> over the property columns.  The sub-column names
  come from a generator, so \<open>get_loc_level\<close> runs, and may raise, when the loop
  reaches the column.
\<close>

fun update_properties_loop ::
  "h5_group \<Rightarrow> dataframe \<Rightarrow> maskframe \<Rightarrow> pd_index \<Rightarrow> bool \<Rightarrow> string list
     \<Rightarrow> error \<times> h5_group + h5_group \<times> dataframe" where
  "update_properties_loop grp df df_bool cols overwrite [] = Inr (grp, df)"
| "update_properties_loop grp df df_bool cols overwrite (n # lvl0) =
     (case get_loc_level cols n of
        Inl e \<Rightarrow> Inl (e, grp)
      | Inr name_seq \<Rightarrow>
          (case update_property grp df df_bool overwrite n name_seq of
             Inl e \<Rightarrow> Inl e
           | Inr (grp', df') \<Rightarrow> update_properties_loop grp' df' df_bool cols overwrite lvl0))"

text \<open>
  The expression \<open>df.levels[0]\<close> of line 333, on the batch \<open>df\<close>.  \<open>levels\<close> is an
  attribute of a \<open>MultiIndex\<close> (as in \<open>from_df\<close>, which reads it from the column
  labels); a \<open>DataFrame\<close> has no attribute of that name.  Attribute access on a
  \<open>DataFrame\<close> falls back on its columns: with no column labelled \<open>levels\<close> it raises
  \<open>AttributeError\<close> (the message is kept without its quotes).  With such a column the
  attribute is that column, in which the key \<open>0\<close> is then looked up; the labels of the
  model are strings, none of which is \<open>0\<close>, so the model gives \<open>KeyError\<close> there (it does
  not follow pandas into the case of a lone sub-column with the empty label, which is
  a \<open>Series\<close> indexed by the rows).  In no case does the expression give the
  first-level labels.
\<close>

definition df_levels0 :: "dataframe \<Rightarrow> error + string list" where
  "df_levels0 df =
     (if ''levels'' \<in> set (level0 (columns df)) then Inl (KeyError ''0'')
      else Inl (AttributeError ''DataFrame object has no attribute levels''))"

text \<open>
  \<open>Database._update_properties(group, df, df_bool, columns, overwrite)\<close>.  The columns to
  update are \<open>set(df.levels[0]).difference(PORPERTY_BLACKLIST)\<close>; the loop takes them
  in the order of \<open>df.levels[0]\<close>.  A raise comes with the group as it is then.
\<close>

definition update_properties ::
  "h5_group \<Rightarrow> dataframe \<Rightarrow> maskframe \<Rightarrow> pd_index \<Rightarrow> bool
     \<Rightarrow> error \<times> h5_group + h5_group \<times> dataframe" where
  "update_properties grp df df_bool cols overwrite =
     (case df_levels0 df of
        Inl e \<Rightarrow> Inl (e, grp)
      | Inr l0 \<Rightarrow>
          update_properties_loop grp df df_bool cols overwrite
            (remdups (filter (\<lambda>k. k \<notin> set PORPERTY_BLACKLIST) l0)))"

text \<open>
  \<open>Database._update_job_settings(f, df, columns)\<close>.  \<open>_update_hdf5_settings\<close> belongs
  to the settings logic that the specification leaves out; it is a parameter here.
\<close>

fun update_job_settings ::
  "('f \<Rightarrow> dataframe \<Rightarrow> string \<Rightarrow> error + 'f) \<Rightarrow> 'f \<Rightarrow> dataframe \<Rightarrow> string list
     \<Rightarrow> error + 'f \<times> dataframe" where
  "update_job_settings update_hdf5_settings f df [] = Inr (f, df)"
| "update_job_settings update_hdf5_settings f df (name # column_set) =
     (case update_hdf5_settings f df name of
        Inl e \<Rightarrow> Inl e
      | Inr f' \<Rightarrow>
          update_job_settings update_hdf5_settings f'
            (df\<lparr>prop_cols := AList.delete name (prop_cols df)\<rparr>) column_set)"

text \<open>The file: its groups by name.\<close>

type_synonym h5file = "string \<rightharpoonup> h5_group"

text \<open>
  What a call of \<open>from_df\<close> leaves: it returns, with the file and the batch as they are
  then, or it raises.  \<open>Raised e (Some f)\<close> is a raise with the file known to be \<open>f\<close>:
  what was written before the raise stays in the file, which the \<open>with\<close> statement
  closes.  After a raise in the middle of the structural write or of the settings the
  model does not say what the file holds (\<open>None\<close>).
\<close>

datatype outcome = Returned h5file dataframe | Raised error "h5file option"

definition file_opens :: "event list \<Rightarrow> nat" where
  "file_opens tr = length (filter (\<lambda>ev. ev = Opened \<or> ev = OpenFailed) tr)"

text \<open>The part of \<open>from_df\<close> inside \<open>with self.hdf5('r+') as f\<close>.\<close>

definition from_df_body ::
  "(h5file \<Rightarrow> dataframe \<Rightarrow> string \<Rightarrow> error + h5file) \<Rightarrow> h5file \<Rightarrow> dataframe \<Rightarrow> maskframe
     \<Rightarrow> string \<Rightarrow> pd_index \<Rightarrow> bool \<Rightarrow> string option
     \<Rightarrow> error \<times> h5file option + h5file \<times> dataframe" where
  "from_df_body update_hdf5_settings f df df_bool name df_columns overwrite status =
     (case f name of
        None \<Rightarrow> Inl (KeyError name, Some f)
      | Some grp \<Rightarrow>
          (case update_hdf5 df df_bool grp overwrite status of
             Inl e \<Rightarrow> Inl (e, None)
           | Inr (grp1, df1) \<Rightarrow>
               (case update_properties grp1 df1 df_bool df_columns overwrite of
                  Inl (e, grp2) \<Rightarrow> Inl (e, Some (f(name \<mapsto> grp2)))
                | Inr (grp2, df2) \<Rightarrow>
                    (case update_job_settings update_hdf5_settings (f(name \<mapsto> grp2)) df2
                            (remdups (filter (\<lambda>i. i = ''settings'') (level0 df_columns))) of
                       Inl e \<Rightarrow> Inl (e, None)
                     | Inr r \<Rightarrow> Inr r))))"

text \<open>
  \<open>Database.from_df(df, df_bool, name, columns, overwrite, status)\<close>.  The labels are
  checked first; then the probe runs with its default arguments (a timeout of 5
  seconds, 10 attempts), the file is opened and the three updates run.  The trace
  holds every open of the file.
\<close>

definition from_df ::
  "(nat \<Rightarrow> bool) \<Rightarrow> (h5file \<Rightarrow> dataframe \<Rightarrow> string \<Rightarrow> error + h5file) \<Rightarrow> h5file
     \<Rightarrow> dataframe \<Rightarrow> maskframe option \<Rightarrow> string \<Rightarrow> pd_index option \<Rightarrow> bool
     \<Rightarrow> string option \<Rightarrow> (outcome \<times> event list) option" where
  "from_df file_free update_hdf5_settings f df df_bool name cols overwrite status =
     (let df_columns = (case cols of None \<Rightarrow> columns df | Some c \<Rightarrow> c) in
      if nlevels df_columns \<noteq> 2 then
        Some (Raised (ValueError ''Expected a 2-level MultiIndex'') (Some f), [])
      else
        let df_bool' = (case df_bool of None \<Rightarrow> all_true df | Some b \<Rightarrow> b) in
        case hdf5_availability file_free 5 (Some 10) of
          None \<Rightarrow> None
        | Some (Inl e, tr) \<Rightarrow> Some (Raised e (Some f), tr)
        | Some (Inr _, tr) \<Rightarrow>
            if \<not> file_free (file_opens tr) then
              Some (Raised OSError (Some f), tr @ [OpenFailed])
            else
              (case from_df_body update_hdf5_settings f df df_bool' name df_columns
                      overwrite status of
                 Inl (e, fo) \<Rightarrow> Some (Raised e fo, tr @ [Opened])
               | Inr (f', df') \<Rightarrow> Some (Returned f' df', tr @ [Opened])))"

text \<open>
  The scenario of section 8 of the specification: an empty group, and a batch of
  three new records with one property column, of which two cells are authoritative.
\<close>

definition example_empty :: "nat option \<Rightarrow> dataset" where
  "example_empty w = \<lparr>shape1 = w, rows = [], dtype = Int64, fillvalue = IntC 0,
     dim0_scale = Some 0\<rparr>"

definition example_ligand :: h5_group where
  "example_ligand =
     \<lparr>path = ''/ligand'', index_dset = (example_empty None)\<lparr>dim0_scale := None\<rparr>,
      scale_ref = 0,
      dsets = [''atoms'' \<mapsto> example_empty (Some 0), ''bonds'' \<mapsto> example_empty (Some 0)],
      properties = [], prop_names = [], logger = []\<rparr>"

definition example_row :: "nat \<Rightarrow> row" where
  "example_row l = \<lparr>label = l, MOL = Molecule [IntC 6, IntC 8] [IntC 1], HDF5_INDEX = - 1,
     OPT = False\<rparr>"

definition example_df :: dataframe where
  "example_df =
     \<lparr>columns = MultiIndex 2 [[''mol'', ''''], [''hdf5 index'', ''''], [''opt'', ''''],
                               [''E'', '''']],
      body = [example_row 10, example_row 11, example_row 12],
      prop_cols = [(''E'', [[FloatC 1], [FloatC 2], [FloatC 3]])]\<rparr>"

definition example_df_bool :: maskframe where
  "example_df_bool =
     \<lparr>mask_body = replicate 3 \<lparr>b_HDF5_INDEX = True, b_OPT = True\<rparr>,
      mask_cols = [(''E'', Series [True, True, False])]\<rparr>"

text \<open>
  The scenario after \<open>_write_hdf5\<close> on its three rows: the group, and the batch with the
  positions written back.  With \<open>opt\<close> set, the three entries that the index scale
  gains hold the sentinel, and the rows are marked as optimized.
\<close>

definition example_atoms3 :: dataset where
  "example_atoms3 = (example_empty (Some 2))\<lparr>rows := replicate 3 [IntC 6, IntC 8]\<rparr>"

definition example_bonds3 :: dataset where
  "example_bonds3 = (example_empty (Some 1))\<lparr>rows := replicate 3 [IntC 1]\<rparr>"

definition example_entry1 :: log_entry where
  "example_entry1 = \<lparr>log_index = [0, 1, 2],
     log_datasets = [''/ligand/atoms'', ''/ligand/bonds''], log_overwrite = False\<rparr>"

definition example_pdb3 :: pdb_container where
  "example_pdb3 =
     \<lparr>pdb_items = [(''atoms'', \<lparr>shape1 = Some 2, rows = replicate 3 [IntC 6, IntC 8]\<rparr>),
                   (''bonds'', \<lparr>shape1 = Some 1, rows = replicate 3 [IntC 1]\<rparr>)],
      pdb_scale = [10, 11, 12]\<rparr>"

definition example_stored3 :: "bool \<Rightarrow> h5_group" where
  "example_stored3 opt =
     example_ligand\<lparr>dsets := [''atoms'' \<mapsto> example_atoms3, ''bonds'' \<mapsto> example_bonds3],
       index_dset := (index_dset example_ligand)\<lparr>rows :=
          (if opt then [[IntC (- 1)], [IntC (- 1)], [IntC (- 1)]]
           else [[IntC 10], [IntC 11], [IntC 12]])\<rparr>\<rparr>"

definition example_written :: "bool \<Rightarrow> h5_group" where
  "example_written opt = (example_stored3 opt)\<lparr>logger := [example_entry1]\<rparr>"

definition example_df1 :: "bool \<Rightarrow> dataframe" where
  "example_df1 opt =
     example_df\<lparr>body := [(example_row 10)\<lparr>HDF5_INDEX := 0, OPT := opt\<rparr>,
                          (example_row 11)\<lparr>HDF5_INDEX := 1, OPT := opt\<rparr>,
                          (example_row 12)\<lparr>HDF5_INDEX := 2, OPT := opt\<rparr>]\<rparr>"
section \<open>Properties of the availability probe\<close>

lemma first_free_0: "file_free k \<Longrightarrow> first_free file_free k 0"
  by (simp add: first_free_def)

lemma first_free_Suc:
  "\<not> file_free k \<Longrightarrow> first_free file_free (Suc k) n \<Longrightarrow> first_free file_free k (Suc n)"
  unfolding first_free_def
proof (intro conjI allI impI)
  assume a: "\<not> file_free k" and b: "file_free (Suc k + n) \<and> (\<forall>j<n. \<not> file_free (Suc k + j))"
  from b show "file_free (k + Suc n)" by simp
  fix j assume "j < Suc n"
  with a b show "\<not> file_free (k + j)" by (cases j) auto
qed

lemma first_free_step:
  "first_free file_free k (Suc n) \<Longrightarrow> \<not> file_free k \<and> first_free file_free (Suc k) n"
  unfolding first_free_def
proof (intro conjI allI impI)
  assume a: "file_free (k + Suc n) \<and> (\<forall>j<Suc n. \<not> file_free (k + j))"
  from a have "\<not> file_free (k + 0)" by blast
  then show "\<not> file_free k" by simp
  from a show "file_free (Suc k + n)" by simp
  fix j assume "j < n"
  then have "Suc j < Suc n" by simp
  with a have "\<not> file_free (k + Suc j)" by blast
  then show "\<not> file_free (Suc k + j)" by simp
qed

text \<open>A run that meets its first free open after \<open>n\<close> failures, with attempts to spare.\<close>

lemma availability_loop_success:
  "\<lbrakk>first_free file_free k n; i = None \<or> (\<exists>m. i = Some m \<and> int n < m)\<rbrakk>
   \<Longrightarrow> availability_loop file_free t i k tr = Some (Inr (), tr @ failed_attempts t n @ [Opened])"
proof (induction n arbitrary: i k tr)
  case 0
  then have "file_free k" by (simp add: first_free_def)
  with 0(2) show ?case
    by (subst availability_loop.simps) (auto simp: failed_attempts_def)
next
  case (Suc n)
  from first_free_step [OF Suc.prems(1)]
  have nf: "\<not> file_free k" and ff: "first_free file_free (Suc k) n" by simp_all
  have i0: "i \<noteq> Some 0" using Suc.prems(2) by auto
  have c: "map_option (\<lambda>n. n - 1) i = None \<or>
           (\<exists>m. map_option (\<lambda>n. n - 1) i = Some m \<and> int n < m)"
    using Suc.prems(2) by auto
  have "availability_loop file_free t i k tr =
        availability_loop file_free t (map_option (\<lambda>n. n - 1) i) (Suc k)
          (tr @ [OpenFailed, Sleep t])"
    using nf i0 by (subst availability_loop.simps) simp
  also have "\<dots> = Some (Inr (), (tr @ [OpenFailed, Sleep t]) @ failed_attempts t n @ [Opened])"
    by (rule Suc.IH [OF ff c])
  finally show ?case by (simp add: failed_attempts_def)
qed

text \<open>A run whose \<open>n\<close> permitted opens all fail.\<close>

lemma availability_loop_exhausted:
  "\<forall>j<n. \<not> file_free (k + j)
   \<Longrightarrow> availability_loop file_free t (Some (int n)) k tr
       = Some (Inl OSError, tr @ failed_attempts t n)"
proof (induction n arbitrary: k tr)
  case 0
  then show ?case
    by (subst availability_loop.simps) (auto simp: failed_attempts_def)
next
  case (Suc n)
  have nf: "\<not> file_free k" using Suc.prems [rule_format, of 0] by simp
  have a: "\<forall>j<n. \<not> file_free (Suc k + j)"
  proof (intro allI impI)
    fix j assume "j < n"
    then have "Suc j < Suc n" by simp
    with Suc.prems have "\<not> file_free (k + Suc j)" by blast
    then show "\<not> file_free (Suc k + j)" by simp
  qed
  have "availability_loop file_free t (Some (int (Suc n))) k tr =
        availability_loop file_free t (Some (int n)) (Suc k) (tr @ [OpenFailed, Sleep t])"
    using nf by (subst availability_loop.simps) simp
  also have "\<dots> = Some (Inl OSError, (tr @ [OpenFailed, Sleep t]) @ failed_attempts t n)"
    by (rule Suc.IH [OF a])
  finally show ?case by (simp add: failed_attempts_def)
qed

text \<open>
  With the counter at \<open>np.inf\<close>, the only way out of the loop is a successful open:
  whatever the loop returns is a success reached after some number of failures.
\<close>

lemma availability_loop_unbounded:
  assumes "availability_loop file_free t i k tr = Some r"
  shows "i = None \<longrightarrow>
   (\<exists>n. r = (Inr (), tr @ failed_attempts t n @ [Opened]) \<and> first_free file_free k n)"
proof (rule availability_loop.raw_induct [where P = "\<lambda>file_free t i k tr r. i = None \<longrightarrow>
   (\<exists>n. r = (Inr (), tr @ failed_attempts t n @ [Opened]) \<and> first_free file_free k n)",
   OF _ assms])
  fix loop file_free t i k tr r
  assume IH: "\<And>ff t (i::int option) k tr r. loop ff t i k tr = Some r \<Longrightarrow> i = None \<longrightarrow>
     (\<exists>n. r = (Inr (), tr @ failed_attempts t n @ [Opened]) \<and> first_free ff k n)"
   and body: "(if i = Some 0 then Some (Inl OSError, tr)
      else if file_free k then Some (Inr (), tr @ [Opened])
           else loop file_free t (map_option (\<lambda>n. n - 1) i) (Suc k)
                  (tr @ [OpenFailed, Sleep t])) = Some r"
  show "i = None \<longrightarrow>
    (\<exists>n. r = (Inr (), tr @ failed_attempts t n @ [Opened]) \<and> first_free file_free k n)"
  proof
    assume i: "i = None"
    show "\<exists>n. r = (Inr (), tr @ failed_attempts t n @ [Opened]) \<and> first_free file_free k n"
    proof (cases "file_free k")
      case True
      with body i have "r = (Inr (), tr @ [Opened])" by simp
      with True show ?thesis
        by (intro exI [of _ 0]) (simp add: failed_attempts_def first_free_0)
    next
      case False
      with body i
      have "loop file_free t None (Suc k) (tr @ [OpenFailed, Sleep t]) = Some r" by simp
      from IH [OF this] obtain n where
        n: "r = (Inr (), (tr @ [OpenFailed, Sleep t]) @ failed_attempts t n @ [Opened])"
           "first_free file_free (Suc k) n" by auto
      from n(1) have "r = (Inr (), tr @ failed_attempts t (Suc n) @ [Opened])"
        by (simp add: failed_attempts_def)
      with first_free_Suc [OF False n(2)] show ?thesis by blast
    qed
  qed
qed

lemma availability_unbounded_diverges:
  assumes "\<forall>j. \<not> file_free j"
  shows "hdf5_availability file_free t None = None"
proof (cases "hdf5_availability file_free t None")
  case None
  then show ?thesis .
next
  case (Some r)
  then have "availability_loop file_free t None 0 [] = Some r"
    by (simp add: hdf5_availability_def)
  from availability_loop_unbounded [OF this] obtain n where "first_free file_free 0 n"
    by auto
  with assms show ?thesis by (simp add: first_free_def)
qed

lemma availability_unbounded_no_raise:
  "hdf5_availability file_free t None \<noteq> Some (Inl e, tr)"
proof
  assume "hdf5_availability file_free t None = Some (Inl e, tr)"
  then have "availability_loop file_free t None 0 [] = Some (Inl e, tr)"
    by (simp add: hdf5_availability_def)
  from availability_loop_unbounded [OF this] show False by auto
qed

text \<open>
  C5.  The probe returns as soon as one open succeeds: if the first successful open
  comes after \<open>n\<close> failed ones and \<open>n\<close> is below the bound (or there is no bound), the call
  returns, and its trace is \<open>n\<close> times a failed open followed by a sleep of \<open>timeout\<close>
  seconds, then the successful open.  If the first \<open>m\<close> opens all fail and
  \<open>max_attempts = m > 0\<close>, the call raises \<open>OSError\<close> after exactly \<open>m\<close> failed opens.
  With \<open>max_attempts = None\<close> the call never raises, and it does not return while every
  open fails.
\<close>

theorem hdf5_availability_retry:
  "(first_free file_free 0 n \<and>
      (max_attempts = None \<or> (\<exists>m. max_attempts = Some m \<and> int n < m)) \<longrightarrow>
      hdf5_availability file_free timeout max_attempts
        = Some (Inr (), failed_attempts timeout n @ [Opened]))
   \<and> (0 < m \<and> (\<forall>j<m. \<not> file_free j) \<longrightarrow>
      hdf5_availability file_free timeout (Some (int m))
        = Some (Inl OSError, failed_attempts timeout m))
   \<and> hdf5_availability file_free timeout None \<noteq> Some (Inl e, tr)
   \<and> ((\<forall>j. \<not> file_free j) \<longrightarrow> hdf5_availability file_free timeout None = None)"
proof (intro conjI impI)
  assume a: "first_free file_free 0 n \<and>
    (max_attempts = None \<or> (\<exists>m. max_attempts = Some m \<and> int n < m))"
  then have ff: "first_free file_free 0 n"
    and b: "max_attempts = None \<or> (\<exists>m. max_attempts = Some m \<and> int n < m)" by simp_all
  have pos: "\<And>m. max_attempts = Some m \<Longrightarrow> \<not> m \<le> 0" using b by auto
  have "hdf5_availability file_free timeout max_attempts
        = availability_loop file_free timeout max_attempts 0 []"
    using pos by (cases max_attempts) (simp_all add: hdf5_availability_def)
  also have "\<dots> = Some (Inr (), [] @ failed_attempts timeout n @ [Opened])"
    by (rule availability_loop_success [OF ff b])
  finally show "hdf5_availability file_free timeout max_attempts
        = Some (Inr (), failed_attempts timeout n @ [Opened])" by simp
next
  assume a: "0 < m \<and> (\<forall>j<m. \<not> file_free j)"
  then have "\<forall>j<m. \<not> file_free (0 + j)" by simp
  from availability_loop_exhausted [OF this, of timeout "[]"] a
  show "hdf5_availability file_free timeout (Some (int m))
        = Some (Inl OSError, failed_attempts timeout m)"
    by (simp add: hdf5_availability_def)
next
  show "hdf5_availability file_free timeout None \<noteq> Some (Inl e, tr)"
    by (rule availability_unbounded_no_raise)
next
  assume "\<forall>j. \<not> file_free j"
  then show "hdf5_availability file_free timeout None = None"
    by (rule availability_unbounded_diverges)
qed

theorem hdf5_availability_retry_witness:
  "hdf5_availability (\<lambda>k. 2 \<le> k) 5 (Some 10)
     = Some (Inr (), [OpenFailed, Sleep 5, OpenFailed, Sleep 5, Opened])
   \<and> hdf5_availability (\<lambda>k. 2 \<le> k) 5 None
     = Some (Inr (), [OpenFailed, Sleep 5, OpenFailed, Sleep 5, Opened])
   \<and> hdf5_availability (\<lambda>k. 2 \<le> k) 5 (Some 2)
     = Some (Inl OSError, [OpenFailed, Sleep 5, OpenFailed, Sleep 5])
   \<and> hdf5_availability (\<lambda>k. False) 5 None = None"
proof -
  have ff: "first_free (\<lambda>k. 2 \<le> k) 0 2" by (simp add: first_free_def)
  have fa: "failed_attempts 5 2 = [OpenFailed, Sleep 5, OpenFailed, Sleep 5]"
    by (simp add: failed_attempts_def numeral_2_eq_2)
  have nf: "\<forall>j<2. \<not> (2::nat) \<le> j" by simp
  from hdf5_availability_retry [of "\<lambda>k. 2 \<le> k" 2 "Some 10" 5 2 OSError "[]"] ff nf fa
  have 1: "hdf5_availability (\<lambda>k. 2 \<le> k) 5 (Some 10)
     = Some (Inr (), [OpenFailed, Sleep 5, OpenFailed, Sleep 5, Opened])"
    and 3: "hdf5_availability (\<lambda>k. 2 \<le> k) 5 (Some 2)
     = Some (Inl OSError, [OpenFailed, Sleep 5, OpenFailed, Sleep 5])" by simp_all
  from hdf5_availability_retry [of "\<lambda>k. 2 \<le> k" 2 None 5 2 OSError "[]"] ff fa
  have 2: "hdf5_availability (\<lambda>k. 2 \<le> k) 5 None
     = Some (Inr (), [OpenFailed, Sleep 5, OpenFailed, Sleep 5, Opened])" by simp
  from hdf5_availability_retry [of "\<lambda>k. False" 0 None 5 0 OSError "[]"]
  have 4: "hdf5_availability (\<lambda>k. False) 5 None = None" by simp
  from 1 2 3 4 show ?thesis by simp
qed

text \<open>
  C10.  An integer \<open>max_attempts \<le> 0\<close> raises \<open>ValueError\<close> at once: the trace is empty,
  no open was attempted and the loop was not entered.
\<close>

theorem hdf5_availability_nonpositive:
  "i \<le> 0 \<Longrightarrow>
   hdf5_availability file_free timeout (Some i)
     = Some (Inl (ValueError ''max_attempts must be larger than 0''), [])"
  by (simp add: hdf5_availability_def)

theorem hdf5_availability_nonpositive_witness:
  "hdf5_availability (\<lambda>k. True) 5 (Some 0)
     = Some (Inl (ValueError ''max_attempts must be larger than 0''), [])
   \<and> hdf5_availability (\<lambda>k. True) 5 (Some (- 3))
     = Some (Inl (ValueError ''max_attempts must be larger than 0''), [])"
  using hdf5_availability_nonpositive [of 0 "\<lambda>k. True" 5]
        hdf5_availability_nonpositive [of "- 3" "\<lambda>k. True" 5]
  by simp

section \<open>Properties of the shape management\<close>

lemma update_pdb_shape_Cons:
  "update_pdb_shape grp ((n, ar) # pdb) = Inr grp' \<Longrightarrow>
   \<exists>d. grp n = Some d \<and> update_pdb_shape (grp(n \<mapsto> grown d ar)) pdb = Inr grp'"
  by (auto simp: grown_def grown_shape1_def Let_def split: option.splits)

lemma update_pdb_shape_lookup:
  "update_pdb_shape grp pdb = Inr grp' \<Longrightarrow> distinct (map fst pdb) \<Longrightarrow>
   grp' name = (case map_of pdb name of None \<Rightarrow> grp name
                | Some ar \<Rightarrow> map_option (\<lambda>d. grown d ar) (grp name))"
proof (induction pdb arbitrary: grp)
  case Nil
  then show ?case by simp
next
  case (Cons p pdb)
  obtain n ar where p: "p = (n, ar)" by (cases p)
  from Cons.prems(1) p obtain d where d: "grp n = Some d"
    and run: "update_pdb_shape (grp(n \<mapsto> grown d ar)) pdb = Inr grp'"
    using update_pdb_shape_Cons by blast
  have notin: "map_of pdb n = None" using Cons.prems(2) p by (simp add: map_of_eq_None_iff)
  have dist: "distinct (map fst pdb)" using Cons.prems(2) by simp
  have IH: "grp' name = (case map_of pdb name of None \<Rightarrow> (grp(n \<mapsto> grown d ar)) name
                | Some ar' \<Rightarrow> map_option (\<lambda>d. grown d ar') ((grp(n \<mapsto> grown d ar)) name))"
    by (rule Cons.IH [OF run dist])
  show ?case
  proof (cases "name = n")
    case True
    with IH notin d p show ?thesis by simp
  next
    case False
    with IH p show ?thesis by (simp split: option.splits)
  qed
qed

lemma append_values_Cons:
  "append_values grp ((n, ar) # pdb) = Inr grp' \<Longrightarrow>
   \<exists>d d'. grp n = Some d \<and> assign_tail d ar = Inr d' \<and> append_values (grp(n \<mapsto> d')) pdb = Inr grp'"
  by (auto split: option.splits sum.splits)

lemma append_values_lookup:
  "append_values grp pdb = Inr grp' \<Longrightarrow> distinct (map fst pdb) \<Longrightarrow>
   (case map_of pdb name of None \<Rightarrow> grp' name = grp name
    | Some ar \<Rightarrow> (\<exists>d d'. grp name = Some d \<and> assign_tail d ar = Inr d' \<and> grp' name = Some d'))"
proof (induction pdb arbitrary: grp)
  case Nil
  then show ?case by simp
next
  case (Cons p pdb)
  obtain n ar where p: "p = (n, ar)" by (cases p)
  from Cons.prems(1) p obtain d d' where d: "grp n = Some d" "assign_tail d ar = Inr d'"
    and run: "append_values (grp(n \<mapsto> d')) pdb = Inr grp'"
    using append_values_Cons by blast
  have notin: "map_of pdb n = None" using Cons.prems(2) p by (simp add: map_of_eq_None_iff)
  have dist: "distinct (map fst pdb)" using Cons.prems(2) by simp
  have IH: "(case map_of pdb name of None \<Rightarrow> grp' name = (grp(n \<mapsto> d')) name
    | Some ar \<Rightarrow> (\<exists>d0 d1. (grp(n \<mapsto> d')) name = Some d0 \<and> assign_tail d0 ar = Inr d1 \<and> grp' name = Some d1))"
    by (rule Cons.IH [OF run dist])
  show ?case
  proof (cases "name = n")
    case True
    with IH notin d p show ?thesis by simp
  next
    case False
    with IH p show ?thesis by (simp split: option.splits)
  qed
qed

lemma append_pdb_values_lookup:
  assumes "append_pdb_values grp pdb = Inr grp'" "distinct (map fst pdb)"
    "map_of pdb name = Some ar"
  shows "\<exists>d d'. grp name = Some d \<and> assign_tail (grown d ar) ar = Inr d' \<and> grp' name = Some d'"
proof -
  from assms(1) obtain g1 where g1: "update_pdb_shape grp pdb = Inr g1"
    and g2: "append_values g1 pdb = Inr grp'"
    by (auto simp: append_pdb_values_def split: sum.splits)
  from update_pdb_shape_lookup [OF g1 assms(2), of name] assms(3)
  have a: "g1 name = map_option (\<lambda>d. grown d ar) (grp name)" by simp
  from append_values_lookup [OF g2 assms(2), of name] assms(3)
  obtain d1 d' where b: "g1 name = Some d1" "assign_tail d1 ar = Inr d'" "grp' name = Some d'"
    by auto
  from a b(1) obtain d where "grp name = Some d" "d1 = grown d ar"
    by (cases "grp name") auto
  with b show ?thesis by blast
qed

lemma append_pdb_values_frame:
  assumes "append_pdb_values grp pdb = Inr grp'" "distinct (map fst pdb)"
    "map_of pdb name = None"
  shows "grp' name = grp name"
proof -
  from assms(1) obtain g1 where g1: "update_pdb_shape grp pdb = Inr g1"
    and g2: "append_values g1 pdb = Inr grp'"
    by (auto simp: append_pdb_values_def split: sum.splits)
  from update_pdb_shape_lookup [OF g1 assms(2), of name] assms(3)
  have a: "g1 name = grp name" by simp
  from append_values_lookup [OF g2 assms(2), of name] assms(3) a
  show ?thesis by simp
qed

lemma length_rows_resize: "length (rows (resize d n s)) = n"
  by (simp add: resize_def)

lemma shape1_resize: "shape1 (resize d n s) = s"
  by (simp add: resize_def)

lemma rows_resize_old:
  "k < length (rows d) \<Longrightarrow> k < n \<Longrightarrow>
   rows (resize d n s) ! k = fit_row (row_width s) (fillvalue d) (rows d ! k)"
  by (simp add: resize_def nth_append)

lemma assign_tail_grown:
  assumes "assign_tail (grown d ar) ar = Inr d'"
  shows "shape1 d' = grown_shape1 (shape1 d) (shape1 ar)"
    and "length (rows d') = length (rows d) + length (rows ar)"
    and "k < length (rows d) \<Longrightarrow>
         rows d' ! k = fit_row (row_width (shape1 d')) (fillvalue d) (rows d ! k)"
    and "fillvalue d' = fillvalue d"
proof -
  let ?g = "grown d ar"
  let ?L = "length (rows d)" and ?i = "length (rows ar)"
  have len: "length (rows ?g) = ?L + ?i" by (simp add: grown_def length_rows_resize)
  have sh: "shape1 ?g = grown_shape1 (shape1 d) (shape1 ar)" by (simp add: grown_def shape1_resize)
  define start where "start = (if ?i = 0 then 0 else ?L + ?i - ?i)"
  from assms len have ok: "?L + ?i - start = ?i"
    by (auto simp: assign_tail_def Let_def start_def split: if_splits)
  then have st: "start = ?L" by (auto simp: start_def split: if_splits)
  from assms len st obtain new where
    d': "d' = ?g\<lparr>rows := take ?L (rows ?g) @ new\<rparr>" and new: "length new = ?i"
    by (auto simp: assign_tail_def Let_def split: if_splits option.splits)
  from d' sh show "shape1 d' = grown_shape1 (shape1 d) (shape1 ar)" by simp
  from d' len new show "length (rows d') = ?L + ?i" by simp
  from d' show "fillvalue d' = fillvalue d" by (simp add: grown_def resize_def)
  assume k: "k < ?L"
  with d' len have "rows d' ! k = rows ?g ! k" by (simp add: nth_append)
  also have "\<dots> = fit_row (row_width (grown_shape1 (shape1 d) (shape1 ar))) (fillvalue d) (rows d ! k)"
    using k by (simp add: grown_def rows_resize_old)
  finally show "rows d' ! k = fit_row (row_width (shape1 d')) (fillvalue d) (rows d ! k)"
    using d' sh by simp
qed

lemma assign_tail_grown_succeeds:
  assumes "fits d ar"
  shows "\<exists>d'. assign_tail (grown d ar) ar = Inr d'"
proof -
  let ?g = "grown d ar"
  have len: "length (rows ?g) = length (rows d) + length (rows ar)"
    by (simp add: grown_def length_rows_resize)
  have sh: "shape1 ?g = grown_shape1 (shape1 d) (shape1 ar)"
    by (simp add: grown_def shape1_resize)
  show ?thesis
  proof (cases "shape1 ar")
    case None
    with assms have "shape1 d = None" by (simp add: fits_def)
    with None sh have "shape1 ?g = None" by (simp add: grown_shape1_def)
    with None len assms show ?thesis
      by (auto simp: assign_tail_def Let_def fits_def)
  next
    case (Some j)
    with assms obtain w where w: "shape1 d = Some w" by (auto simp: fits_def)
    with Some sh have "shape1 ?g = Some (max w j)" by (simp add: grown_shape1_def)
    with Some len assms show ?thesis
      by (auto simp: assign_tail_def Let_def fits_def)
  qed
qed

lemma update_pdb_shape_succeeds:
  "distinct (map fst pdb) \<Longrightarrow>
   \<forall>(n, ar) \<in> set pdb. \<exists>d. grp n = Some d \<and> fits d ar \<Longrightarrow>
   \<exists>grp'. update_pdb_shape grp pdb = Inr grp'"
proof (induction pdb arbitrary: grp)
  case Nil
  then show ?case by simp
next
  case (Cons p pdb)
  obtain n ar where p: "p = (n, ar)" by (cases p)
  from Cons.prems(2) p obtain d where d: "grp n = Some d" "fits d ar" by auto
  have step: "update_pdb_shape grp (p # pdb) = update_pdb_shape (grp(n \<mapsto> grown d ar)) pdb"
    using p d by (auto simp: grown_def grown_shape1_def fits_def Let_def split: option.splits)
  have dist: "distinct (map fst pdb)" using Cons.prems(1) by simp
  have rest: "\<forall>(n', ar') \<in> set pdb. \<exists>d'. (grp(n \<mapsto> grown d ar)) n' = Some d' \<and> fits d' ar'"
  proof (clarify)
    fix n' ar' assume m: "(n', ar') \<in> set pdb"
    with Cons.prems(1) p have "n' \<noteq> n" by force
    moreover from m Cons.prems(2) obtain d' where "grp n' = Some d'" "fits d' ar'" by auto
    ultimately show "\<exists>d'. (grp(n \<mapsto> grown d ar)) n' = Some d' \<and> fits d' ar'" by simp
  qed
  from Cons.IH [OF dist rest] show ?case unfolding step .
qed

lemma append_values_succeeds:
  "distinct (map fst pdb) \<Longrightarrow>
   \<forall>(n, ar) \<in> set pdb. \<exists>d d'. grp n = Some d \<and> assign_tail d ar = Inr d' \<Longrightarrow>
   \<exists>grp'. append_values grp pdb = Inr grp'"
proof (induction pdb arbitrary: grp)
  case Nil
  then show ?case by simp
next
  case (Cons p pdb)
  obtain n ar where p: "p = (n, ar)" by (cases p)
  from Cons.prems(2) p obtain d d' where d: "grp n = Some d" "assign_tail d ar = Inr d'" by auto
  have step: "append_values grp (p # pdb) = append_values (grp(n \<mapsto> d')) pdb"
    using p d by simp
  have dist: "distinct (map fst pdb)" using Cons.prems(1) by simp
  have rest: "\<forall>(n', ar') \<in> set pdb. \<exists>d0 d1. (grp(n \<mapsto> d')) n' = Some d0 \<and> assign_tail d0 ar' = Inr d1"
  proof (clarify)
    fix n' ar' assume m: "(n', ar') \<in> set pdb"
    with Cons.prems(1) p have "n' \<noteq> n" by force
    moreover from m Cons.prems(2) obtain d0 d1 where "grp n' = Some d0" "assign_tail d0 ar' = Inr d1" by auto
    ultimately show "\<exists>d0 d1. (grp(n \<mapsto> d')) n' = Some d0 \<and> assign_tail d0 ar' = Inr d1" by simp
  qed
  from Cons.IH [OF dist rest] show ?case unfolding step .
qed

lemma append_pdb_values_succeeds:
  assumes "distinct (map fst pdb)"
    and "\<forall>(n, ar) \<in> set pdb. \<exists>d. grp n = Some d \<and> fits d ar"
  shows "\<exists>grp'. append_pdb_values grp pdb = Inr grp'"
proof -
  from update_pdb_shape_succeeds [OF assms] obtain g1 where
    g1: "update_pdb_shape grp pdb = Inr g1" by blast
  have "\<forall>(n, ar) \<in> set pdb. \<exists>d d'. g1 n = Some d \<and> assign_tail d ar = Inr d'"
  proof (clarify)
    fix n ar assume m: "(n, ar) \<in> set pdb"
    with assms(1) have mo: "map_of pdb n = Some ar" by simp
    from m assms(2) obtain d where d: "grp n = Some d" "fits d ar" by auto
    from update_pdb_shape_lookup [OF g1 assms(1), of n] mo d
    have "g1 n = Some (grown d ar)" by simp
    with assign_tail_grown_succeeds [OF d(2)]
    show "\<exists>d d'. g1 n = Some d \<and> assign_tail d ar = Inr d'" by blast
  qed
  from append_values_succeeds [OF assms(1) this] g1 show ?thesis
    by (simp add: append_pdb_values_def)
qed

lemma fit_row_wf:
  "length r = w \<Longrightarrow> w \<le> w' \<Longrightarrow> fit_row w' f r = r @ replicate (w' - w) f"
  by (simp add: fit_row_def)

lemma grown_shape1_width: "row_width sd \<le> row_width (grown_shape1 sd sa)"
  by (cases sa; cases sd) (simp_all add: grown_shape1_def row_width_def)

text \<open>
  C7.  After a successful \<open>append_pdb_values\<close> (which runs \<open>update_pdb_shape\<close>
  first), for every array of the container: the width of its dataset is the larger of
  the previous width and the array's (so it does not shrink; a 1-D array leaves the
  shape as it is), the axis-0 length has grown by the number of rows of the array, and
  every row stored before keeps its content, followed by the fill value in the new
  columns.
\<close>

theorem append_pdb_values_shape:
  assumes "append_pdb_values grp pdb = Inr grp'"
    and "distinct (map fst pdb)"
    and "(name, ar) \<in> set pdb"
  shows "\<exists>d d'. grp name = Some d \<and> grp' name = Some d' \<and>
     (case shape1 ar of
        None \<Rightarrow> shape1 d' = shape1 d
      | Some j \<Rightarrow> \<exists>w. shape1 d = Some w \<and> shape1 d' = Some (max w j)) \<and>
     row_width (shape1 d) \<le> row_width (shape1 d') \<and>
     length (rows d') = length (rows d) + length (rows ar) \<and>
     (\<forall>k<length (rows d). length (rows d ! k) = row_width (shape1 d) \<longrightarrow>
        rows d' ! k
          = rows d ! k @ replicate (row_width (shape1 d') - row_width (shape1 d)) (fillvalue d))"
proof -
  from assms(2,3) have mo: "map_of pdb name = Some ar" by simp
  from append_pdb_values_lookup [OF assms(1,2) mo] obtain d d' where
    d: "grp name = Some d" "assign_tail (grown d ar) ar = Inr d'" "grp' name = Some d'"
    by blast
  note at = assign_tail_grown [OF d(2)]
  have w: "row_width (shape1 d) \<le> row_width (shape1 d')"
    using at(1) grown_shape1_width by simp
  have sh: "(case shape1 ar of
        None \<Rightarrow> shape1 d' = shape1 d
      | Some j \<Rightarrow> \<exists>w. shape1 d = Some w \<and> shape1 d' = Some (max w j))"
  proof (cases "shape1 ar")
    case None
    with at(1) show ?thesis by (simp add: grown_shape1_def)
  next
    case (Some j)
    have "shape1 (grown d ar) \<noteq> None"
      using d(2) Some by (auto simp: assign_tail_def Let_def split: if_splits option.splits)
    then obtain w where "shape1 d = Some w"
      using Some by (cases "shape1 d") (simp_all add: grown_def shape1_resize grown_shape1_def)
    with at(1) Some show ?thesis by (simp add: grown_shape1_def)
  qed
  have old: "\<forall>k<length (rows d). length (rows d ! k) = row_width (shape1 d) \<longrightarrow>
        rows d' ! k
          = rows d ! k @ replicate (row_width (shape1 d') - row_width (shape1 d)) (fillvalue d)"
    using at(3) w by (simp add: fit_row_wf)
  from d(1,3) sh w at(2) old show ?thesis by blast
qed

lemma example_run:
  "append_pdb_values example_group example_pdb = Inr example_appended"
  by (simp add: append_pdb_values_def example_group_def example_pdb_def example_atoms_def
      example_atoms_new_def example_count_def example_appended_def resize_def
      assign_tail_def fit_row_def row_width_def Let_def fun_upd_twist)

theorem append_pdb_values_shape_witness:
  "append_pdb_values example_group example_pdb = Inr example_appended \<and>
   (\<exists>d d'. example_group ''atoms'' = Some d \<and> example_appended ''atoms'' = Some d' \<and>
       shape1 d = Some 2 \<and> shape1 d' = Some 3 \<and>
       length (rows d) = 1 \<and> length (rows d') = 2 \<and>
       rows d ! 0 = [IntC 1, IntC 2] \<and> rows d' ! 0 = [IntC 1, IntC 2, IntC 0])"
  using append_pdb_values_shape [OF example_run, of "''atoms''" example_atoms_new] example_run
  by (simp add: example_pdb_def example_group_def example_atoms_def example_atoms_new_def
      example_appended_def)

section \<open>Properties of the property dataset engine\<close>

lemma length_write_rows: "length (write_rows rs ws) = length rs"
  by (induction rs ws rule: write_rows.induct) simp_all

lemma write_rows_other:
  "k \<notin> fst ` set ws \<Longrightarrow> write_rows rs ws ! k = rs ! k"
  by (induction rs ws rule: write_rows.induct) auto

lemma write_rows_written:
  "distinct (map fst ws) \<Longrightarrow> i < length ws \<Longrightarrow> fst (ws ! i) < length rs \<Longrightarrow>
   write_rows rs ws ! fst (ws ! i) = snd (ws ! i)"
proof (induction rs ws arbitrary: i rule: write_rows.induct)
  case (1 rs)
  then show ?case by simp
next
  case (2 rs p r ws)
  show ?case
  proof (cases i)
    case 0
    from 2(2) have "p \<notin> fst ` set ws" by simp
    with 0 2(4) show ?thesis by (simp add: write_rows_other)
  next
    case (Suc j)
    with 2 show ?thesis by simp
  qed
qed

lemma update_prop_dset_Inr:
  assumes "update_prop_dset dset data index = Inr dset'"
  shows "\<forall>p\<in>set (positions index). 0 \<le> p"
    and "sorted_wrt (<) (positions index)"
    and "length data = length (positions index)"
    and "dset' = (expose dset (if positions index = [] then length (rows dset)
                 else max (length (rows dset)) (nat (Max (set (positions index))) + 1)))
          \<lparr>rows := write_rows (rows (expose dset (if positions index = [] then length (rows dset)
                 else max (length (rows dset)) (nat (Max (set (positions index))) + 1))))
                    (zip (map nat (positions index)) data)\<rparr>"
  using assms
  by (auto simp: update_prop_dset_def Let_def list_ex_iff split: if_splits)

lemma length_rows_expose: "length (rows (expose d n)) = max (length (rows d)) n"
  by (simp add: expose_def)

lemma rows_expose_old: "k < length (rows d) \<Longrightarrow> rows (expose d n) ! k = rows d ! k"
  by (simp add: expose_def nth_append)

lemma rows_expose_new:
  "length (rows d) \<le> k \<Longrightarrow> k < n \<Longrightarrow> rows (expose d n) ! k = sentinel_row d"
  by (simp add: expose_def nth_append)

text \<open>
  C2.  After a successful \<open>update_prop_dset\<close> whose index addresses a row at or beyond
  the current length: the length is \<open>max(previous length, max(index) + 1)\<close>; every
  row stored before that the index does not address is unchanged, so all of them are
  when the index addresses rows at or beyond the previous length only; every newly
  exposed row that the index does not address holds the sentinel of the element type;
  and the addressed rows hold the data.
\<close>

theorem update_prop_dset_resize:
  assumes "update_prop_dset dset data index = Inr dset'"
    and "\<exists>p\<in>set (positions index). int (length (rows dset)) \<le> p"
  shows "length (rows dset') = max (length (rows dset)) (nat (Max (set (positions index))) + 1)
    \<and> (\<forall>k<length (rows dset). int k \<notin> set (positions index) \<longrightarrow> rows dset' ! k = rows dset ! k)
    \<and> ((\<forall>p\<in>set (positions index). int (length (rows dset)) \<le> p) \<longrightarrow>
         (\<forall>k<length (rows dset). rows dset' ! k = rows dset ! k))
    \<and> (\<forall>k. length (rows dset) \<le> k \<and> k < length (rows dset') \<and> int k \<notin> set (positions index) \<longrightarrow>
         rows dset' ! k = replicate (row_width (shape1 dset)) (sentinel (dtype dset)))
    \<and> (\<forall>i<length (positions index). rows dset' ! nat (positions index ! i) = data ! i)"
proof -
  let ?ps = "positions index" and ?L = "length (rows dset)"
  let ?n = "max ?L (nat (Max (set ?ps)) + 1)"
  note r = update_prop_dset_Inr [OF assms(1)]
  from assms(2) have ne: "?ps \<noteq> []" by auto
  let ?ws = "zip (map nat ?ps) data"
  from r(4) ne have d': "dset' = (expose dset ?n)\<lparr>rows := write_rows (rows (expose dset ?n)) ?ws\<rparr>"
    by simp
  have len: "length (rows dset') = ?n"
    by (simp add: d' length_write_rows length_rows_expose)
  have fst_ws: "fst ` set ?ws \<subseteq> nat ` set ?ps"
    by (auto dest: set_zip_leftD)
  have notin: "\<And>k. int k \<notin> set ?ps \<Longrightarrow> k \<notin> fst ` set ?ws"
  proof
    fix k assume a: "int k \<notin> set ?ps" and "k \<in> fst ` set ?ws"
    with fst_ws obtain p where p: "p \<in> set ?ps" "k = nat p" by auto
    with r(1) have "int k = p" by simp
    with a p show False by simp
  qed
  have other: "\<And>k. int k \<notin> set ?ps \<Longrightarrow> rows dset' ! k = rows (expose dset ?n) ! k"
    by (simp add: d' write_rows_other notin)
  have old: "\<forall>k<?L. int k \<notin> set ?ps \<longrightarrow> rows dset' ! k = rows dset ! k"
    by (simp add: other rows_expose_old)
  have old_all: "(\<forall>p\<in>set ?ps. int ?L \<le> p) \<longrightarrow> (\<forall>k<?L. rows dset' ! k = rows dset ! k)"
  proof (intro impI allI)
    fix k assume a: "\<forall>p\<in>set ?ps. int ?L \<le> p" and k: "k < ?L"
    then have "int k \<notin> set ?ps" by auto
    with old k show "rows dset' ! k = rows dset ! k" by simp
  qed
  have new: "\<forall>k. ?L \<le> k \<and> k < length (rows dset') \<and> int k \<notin> set ?ps \<longrightarrow>
         rows dset' ! k = replicate (row_width (shape1 dset)) (sentinel (dtype dset))"
    using len by (simp add: other rows_expose_new sentinel_row_def)
  have dist: "distinct (map fst ?ws)"
  proof -
    from r(2) have "distinct ?ps" by (simp add: strict_sorted_iff)
    moreover have "inj_on nat (set ?ps)"
    proof (rule inj_onI)
      fix x y assume "x \<in> set ?ps" "y \<in> set ?ps" "nat x = nat y"
      with r(1) have "0 \<le> x" "0 \<le> y" "nat x = nat y" by auto
      then show "x = y" by simp
    qed
    ultimately have "distinct (map nat ?ps)" by (simp add: distinct_map)
    with r(3) show ?thesis by simp
  qed
  have written: "\<forall>i<length ?ps. rows dset' ! nat (?ps ! i) = data ! i"
  proof (intro allI impI)
    fix i assume i: "i < length ?ps"
    with r(3) have iw: "i < length ?ws" and wi: "?ws ! i = (nat (?ps ! i), data ! i)" by simp_all
    have "?ps ! i \<le> Max (set ?ps)" using i by simp
    then have "nat (?ps ! i) < ?n" by simp
    then have "fst (?ws ! i) < length (rows (expose dset ?n))"
      by (simp add: wi length_rows_expose)
    from write_rows_written [OF dist iw this] show "rows dset' ! nat (?ps ! i) = data ! i"
      by (simp add: d' wi)
  qed
  from len old old_all new written show ?thesis by blast
qed

lemma example_update:
  "update_prop_dset example_formula [[TextC ''e'']] (Positions [4]) = Inr example_formula'"
  by (simp add: update_prop_dset_def example_formula_def example_formula'_def expose_def
      sentinel_row_def row_width_def Let_def eval_nat_numeral)

theorem update_prop_dset_resize_witness:
  "update_prop_dset example_formula [[TextC ''e'']] (Positions [4]) = Inr example_formula'
   \<and> length (rows example_formula) = 2 \<and> length (rows example_formula') = 5
   \<and> rows example_formula' ! 0 = rows example_formula ! 0
   \<and> rows example_formula' ! 1 = rows example_formula ! 1
   \<and> rows example_formula' ! 2 = [TextC []]
   \<and> rows example_formula' ! 3 = [TextC []]
   \<and> rows example_formula' ! 4 = [TextC ''e'']"
proof -
  have pre: "\<exists>p\<in>set (positions (Positions [4])). int (length (rows example_formula)) \<le> p"
    by (simp add: example_formula_def)
  from update_prop_dset_resize [OF example_update pre] example_update
  show ?thesis
    by (simp add: example_formula_def example_formula'_def)
qed

lemma validate_dset_Inr: "validate_dset pg (name, dset) = Inr () \<longleftrightarrow> aligned pg dset"
  by (auto simp: validate_dset_def aligned_def split: option.splits)

lemma validate_all_Inr:
  "validate_all pg ms = Inr () \<longleftrightarrow> (\<forall>(name, dset) \<in> set ms. aligned pg dset)"
proof (induction ms)
  case Nil
  then show ?case by simp
next
  case (Cons m ms)
  obtain name dset where m: "m = (name, dset)" by (cases m)
  show ?case
  proof (cases "validate_dset pg m")
    case (Inl e)
    with m have "\<not> aligned pg dset" using validate_dset_Inr [of pg name dset] by auto
    with Inl m show ?thesis by auto
  next
    case (Inr u)
    with m have "aligned pg dset" using validate_dset_Inr [of pg name dset] by simp
    with Inr m Cons.IH show ?thesis by simp
  qed
qed

lemma validate_dset_Inl: "validate_dset pg m = Inl e \<Longrightarrow> broken pg m e"
  by (cases m) (auto simp: validate_dset_def broken_def split: option.splits if_splits)

lemma validate_all_Inl:
  "validate_all pg ms = Inl e \<Longrightarrow> \<exists>m\<in>set ms. broken pg m e"
proof (induction ms)
  case Nil
  then show ?case by simp
next
  case (Cons m ms)
  show ?case
  proof (cases "validate_dset pg m")
    case (Inl e')
    with Cons.prems have "e' = e" by simp
    with Inl validate_dset_Inl show ?thesis by auto
  next
    case (Inr u)
    with Cons show ?thesis by auto
  qed
qed

text \<open>
  C3.  \<open>validate_prop_group\<close> succeeds if and only if every dataset of the group is
  attached on axis 0 to the group's own index scale and is as long as that scale.
  When it raises, the error is an \<open>AssertionError\<close> for a dataset of the group that
  breaks an invariant, and its message ends with "missing dataset scale", "invalid
  dataset scale" or "invalid dataset length" according to the invariant broken.
\<close>

theorem validate_prop_group_iff:
  "(validate_prop_group pg = Inr () \<longleftrightarrow>
      (\<forall>(name, dset) \<in> set (members pg).
         dim0_scale dset = Some (index_ref pg) \<and> length (rows dset) = index_len pg))
   \<and> (\<forall>e. validate_prop_group pg = Inl e \<longrightarrow>
        (\<exists>m \<in> set (members pg). broken pg m e))"
proof (intro conjI allI impI)
  show "validate_prop_group pg = Inr () \<longleftrightarrow>
      (\<forall>(name, dset) \<in> set (members pg).
         dim0_scale dset = Some (index_ref pg) \<and> length (rows dset) = index_len pg)"
    by (simp add: validate_prop_group_def validate_all_Inr aligned_def)
next
  fix e assume "validate_prop_group pg = Inl e"
  then show "\<exists>m \<in> set (members pg). broken pg m e"
    using validate_all_Inl by (auto simp: validate_prop_group_def)
qed

theorem validate_prop_group_iff_witness:
  "validate_prop_group (example_prop_group [(''test1'', example_int_dset 100 None)])
     = Inl (AssertionError ''test1: missing dataset scale'')
   \<and> validate_prop_group (example_prop_group [(''test2'', example_int_dset 200 (Some 1))])
     = Inl (AssertionError ''test2: invalid dataset length'')
   \<and> validate_prop_group (example_prop_group [(''test3'', example_int_dset 100 (Some 2))])
     = Inl (AssertionError ''test3: invalid dataset scale'')
   \<and> validate_prop_group (snd (create_prop_dset (example_prop_group []) ''test4'' Int64 None))
     = Inr ()"
proof -
  let ?pg = "snd (create_prop_dset (example_prop_group []) ''test4'' Int64 None)"
  have "\<forall>(name, dset) \<in> set (members ?pg).
          dim0_scale dset = Some (index_ref ?pg) \<and> length (rows dset) = index_len ?pg"
    by (simp add: create_prop_dset_def example_prop_group_def Let_def)
  with validate_prop_group_iff [of ?pg] have "validate_prop_group ?pg = Inr ()" by blast
  then show ?thesis
    by (simp add: validate_prop_group_def validate_dset_def example_prop_group_def
        example_int_dset_def Let_def)
qed

section \<open>Properties of the document store mirror\<close>

lemma example_update_collection:
  "\<exists>coll. update_collection drawn True [key example_stored \<mapsto> example_stored]
            [example_row1, example_row2] = coll
        \<and> coll (key example_row1) = Some example_stored
        \<and> (2 \<le> drawn \<longrightarrow> coll = [key example_stored \<mapsto> example_stored])"
proof -
  consider "drawn = 0" | "drawn = 1" | "2 \<le> drawn" by linarith
  then show ?thesis
  proof cases
    case 1
    then show ?thesis
      by (simp add: update_collection_def insert_many_def insert_one_def
          example_stored_def example_row1_def example_row2_def)
  next
    case 2
    then show ?thesis
      by (simp add: update_collection_def insert_many_def insert_one_def
          example_stored_def example_row1_def example_row2_def)
  next
    case 3
    then have "max (Suc 0) drawn = drawn" by simp
    with 3 show ?thesis
      by (simp add: update_collection_def insert_many_def insert_one_def
          example_stored_def example_row1_def example_row2_def)
  qed
qed

text \<open>
  C8, at a batch of a row whose key is stored already and a new row, with
  \<open>overwrite = True\<close>: the bulk insert raises at the first row, and the fallback loop
  runs over what is left of the generator.  Whatever the driver had drawn, the stored
  document is not replaced by the first row; when the driver had drawn the whole batch
  before inserting, the new row is not inserted either and the collection is as it
  was.
\<close>

theorem update_mongodb_fallback_misses:
  "(\<forall>drawn. \<exists>db. update_mongodb drawn True example_mongo
                    (Frames [(''ligand'', example_frame)]) True = Inr db
        \<and> ligand_database db (key example_row1) = Some example_stored
        \<and> ligand_database db (key example_row1) \<noteq> Some example_row1)
   \<and> update_mongodb 2 True example_mongo (Frames [(''ligand'', example_frame)]) True
       = Inr example_mongo"
proof (intro conjI allI)
  fix drawn
  from example_update_collection [of drawn] 
  show "\<exists>db. update_mongodb drawn True example_mongo
                    (Frames [(''ligand'', example_frame)]) True = Inr db
        \<and> ligand_database db (key example_row1) = Some example_stored
        \<and> ligand_database db (key example_row1) \<noteq> Some example_row1"
    by (simp add: update_mongodb_def df_to_mongo_dict_def example_mongo_def example_frame_def)
       (simp add: example_stored_def example_row1_def)
next
  from example_update_collection [of 2]
  show "update_mongodb 2 True example_mongo (Frames [(''ligand'', example_frame)]) True
       = Inr example_mongo"
    by (simp add: update_mongodb_def df_to_mongo_dict_def example_mongo_def example_frame_def)
qed

section \<open>Properties of the update orchestrator\<close>

lemma loc_map_label:
  "(\<And>r. label (f r) = label r) \<Longrightarrow> loc idx (map f rs) = map f (loc idx rs)"
  by (induction rs) (simp_all add: loc_def)


lemma loc_set_hdf5_index:
  "length ps = length (loc idx rs) \<Longrightarrow>
   map HDF5_INDEX (loc idx (set_hdf5_index idx ps rs)) = ps"
proof (induction idx ps rs rule: set_hdf5_index.induct)
  case (1 idx ps)
  then show ?case by (simp add: loc_def)
next
  case (2 idx r rs)
  then show ?case by (simp add: loc_def)
next
  case (3 idx p ps r rs)
  then show ?case by (auto simp: loc_def)
qed

lemma loc_set_opt:
  "map HDF5_INDEX (loc idx (set_opt idx rs)) = map HDF5_INDEX (loc idx rs)"
proof -
  have "loc idx (set_opt idx rs)
        = map (\<lambda>r. if label r \<in> set idx then r\<lparr>OPT := True\<rparr> else r) (loc idx rs)"
    unfolding set_opt_def by (rule loc_map_label) simp
  then show ?thesis by (simp add: comp_def)
qed

lemma Max_upt: "i < j \<Longrightarrow> nat (Max (set (map int [i..<j]))) + 1 = j"
proof -
  assume a: "i < j"
  have "Max (int ` {i..<j}) = int (j - 1)"
  proof (rule Max_eqI)
    show "finite (int ` {i..<j})" by simp
    show "\<And>y. y \<in> int ` {i..<j} \<Longrightarrow> y \<le> int (j - 1)" by auto
    have "j - 1 \<in> {i..<j}" using a by auto
    then show "int (j - 1) \<in> int ` {i..<j}" by (rule imageI)
  qed
  with a show ?thesis by simp
qed

lemma length_update_prop_dset:
  assumes "update_prop_dset dset data idx = Inr dset'"
  shows "length (rows dset') = length_after (length (rows dset)) idx"
  using update_prop_dset_Inr(4) [OF assms]
  by (simp add: length_write_rows length_rows_expose length_after_def)

lemma length_after_Slice: "length_after n (Slice i (i + k)) = (if k = 0 then n else max n (i + k))"
proof (cases "k = 0")
  case True
  then show ?thesis by (simp add: length_after_def)
next
  case False
  then have "i < i + k" by simp
  from Max_upt [OF this] False show ?thesis by (simp add: length_after_def)
qed

lemma to_hdf5_items_Cons:
  "to_hdf5_items grp ((n, ar) # items) idx = Inr grp' \<Longrightarrow>
   \<exists>dset dset'. grp n = Some dset
     \<and> update_prop_dset
           (resize dset (length (rows dset)) (grown_shape1 (shape1 dset) (shape1 ar)))
           (map (fit_row (row_width (grown_shape1 (shape1 dset) (shape1 ar))) (fillvalue dset))
              (rows ar)) idx = Inr dset'
     \<and> to_hdf5_items (grp(n \<mapsto> dset')) items idx = Inr grp'"
  by (auto simp: Let_def split: option.splits sum.splits)

lemma to_hdf5_items_length:
  "to_hdf5_items grp items idx = Inr grp' \<Longrightarrow> distinct (map fst items) \<Longrightarrow>
   (case map_of items name of
      None \<Rightarrow> grp' name = grp name
    | Some ar \<Rightarrow> \<exists>dset dset'. grp name = Some dset \<and> grp' name = Some dset' \<and>
        length (rows dset') = length_after (length (rows dset)) idx)"
proof (induction items arbitrary: grp)
  case Nil
  then show ?case by simp
next
  case (Cons p items)
  obtain n ar where p: "p = (n, ar)" by (cases p)
  from Cons.prems(1) p obtain dset dset' where d: "grp n = Some dset"
    and upd: "update_prop_dset
           (resize dset (length (rows dset)) (grown_shape1 (shape1 dset) (shape1 ar)))
           (map (fit_row (row_width (grown_shape1 (shape1 dset) (shape1 ar))) (fillvalue dset))
              (rows ar)) idx = Inr dset'"
    and run: "to_hdf5_items (grp(n \<mapsto> dset')) items idx = Inr grp'"
    using to_hdf5_items_Cons by blast
  have notin: "map_of items n = None" using Cons.prems(2) p by (simp add: map_of_eq_None_iff)
  have dist: "distinct (map fst items)" using Cons.prems(2) by simp
  note IH = Cons.IH [OF run dist]
  show ?case
  proof (cases "name = n")
    case True
    from length_update_prop_dset [OF upd]
    have "length (rows dset') = length_after (length (rows dset)) idx"
      by (simp add: length_rows_resize)
    with IH notin d p True show ?thesis by simp
  next
    case False
    with IH p show ?thesis by (simp split: option.splits)
  qed
qed

lemma length_after_ge: "n \<le> length_after n idx"
  by (simp add: length_after_def)

lemma to_hdf5_Inr:
  assumes "to_hdf5 pdb grp idx update_scale = Inr grp'"
  shows "\<exists>ds. to_hdf5_items (dsets grp) (pdb_items pdb) idx = Inr ds \<and> dsets grp' = ds"
    and "logger grp' = logger grp" and "properties grp' = properties grp"
    and "path grp' = path grp"
  using assms by (auto simp: to_hdf5_def split: sum.splits if_splits)

lemma to_hdf5_scale_length:
  assumes "to_hdf5 pdb grp idx update_scale = Inr grp'"
  shows "length (rows (index_dset grp'))
         = length_after (length (rows (index_dset grp))) idx"
proof (cases update_scale)
  case True
  with assms obtain scale where
    upd: "update_prop_dset (index_dset grp) (map (\<lambda>v. [IntC (int v)]) (pdb_scale pdb)) idx
            = Inr scale"
    and sc: "index_dset grp' = scale"
    by (auto simp: to_hdf5_def split: sum.splits)
  from length_update_prop_dset [OF upd] sc show ?thesis by simp
next
  case False
  with assms have "index_dset grp'
      = expose (index_dset grp) (length_after (length (rows (index_dset grp))) idx)"
    by (auto simp: to_hdf5_def split: sum.splits)
  then show ?thesis
    using length_after_ge [of "length (rows (index_dset grp))" idx]
    by (simp add: length_rows_expose)
qed

lemma from_molecules_Inr:
  assumes "from_molecules mol_list scale = Inr pdb"
  shows "map fst (pdb_items pdb) = DSET_NAMES" and "pdb_scale pdb = scale"
    and "\<exists>ar. map_of (pdb_items pdb) ''atoms'' = Some ar"
  using assms by (auto simp: from_molecules_def DSET_NAMES_def split: if_splits)

lemma write_hdf5_Inr:
  assumes "write_hdf5 grp df idx opt = Inr (grp', df')"
  shows "\<exists>atoms pdb_new grp1 names.
     dsets grp ''atoms'' = Some atoms
     \<and> from_molecules (map MOL (loc idx (body df))) idx = Inr pdb_new
     \<and> to_hdf5 pdb_new grp
          (Slice (length (rows atoms)) (length (rows atoms) + length (loc idx (body df))))
          (\<not> opt) = Inr grp1
     \<and> dset_paths grp1 = Inr names
     \<and> grp' = grp1\<lparr>logger := update_hdf5_log (logger grp1)
          (map int [length (rows atoms)..<length (rows atoms) + length (loc idx (body df))])
          names False\<rparr>
     \<and> body df' = (if opt then set_opt idx else id)
          (set_hdf5_index idx
             (map int [length (rows atoms)..<length (rows atoms) + length (loc idx (body df))])
             (body df))"
  using assms
  by (auto simp: write_hdf5_def Let_def split: option.splits sum.splits if_splits)

text \<open>
  C1.  \<open>_write_hdf5\<close> on a group whose dataset \<open>atoms\<close> is as long as the index scale
  (the invariant of section 3 of the specification), for the \<open>n\<close> rows of the batch
  that \<open>index\<close> labels, \<open>L\<close> being the length of the index scale before.  After the
  call: the new rows hold the positions \<open>L, ..., L+n-1\<close> in the position column of the
  batch, in their order; the index scale has \<open>L+n\<close> entries, with \<open>opt\<close> set or not;
  \<open>atoms\<close> is as long as the index scale again, so that the next call starts at
  \<open>L+n\<close>; the new positions are strictly increasing and none of them is below \<open>L\<close>,
  that is, none was given out before.
\<close>

theorem write_hdf5_allocation:
  assumes "write_hdf5 grp df idx opt = Inr (grp', df')"
    and "dsets grp ''atoms'' = Some atoms"
    and "length (rows atoms) = length (rows (index_dset grp))"
  shows "map HDF5_INDEX (loc idx (body df'))
           = map int [length (rows (index_dset grp))..<
                        length (rows (index_dset grp)) + length (loc idx (body df))]
    \<and> length (rows (index_dset grp'))
        = length (rows (index_dset grp)) + length (loc idx (body df))
    \<and> (\<exists>atoms'. dsets grp' ''atoms'' = Some atoms'
          \<and> length (rows atoms') = length (rows (index_dset grp')))
    \<and> sorted_wrt (<) (map HDF5_INDEX (loc idx (body df')))
    \<and> list_all (\<lambda>p. int (length (rows (index_dset grp))) \<le> p)
         (map HDF5_INDEX (loc idx (body df')))"
proof -
  let ?n = "length (loc idx (body df))"
  let ?L = "length (rows (index_dset grp))"
  from write_hdf5_Inr [OF assms(1)] assms(2,3) obtain pdb_new grp1 names where
    pdb: "from_molecules (map MOL (loc idx (body df))) idx = Inr pdb_new"
    and th: "to_hdf5 pdb_new grp (Slice ?L (?L + ?n)) (\<not> opt) = Inr grp1"
    and grp': "grp' = grp1\<lparr>logger := update_hdf5_log (logger grp1)
          (map int [?L..<?L + ?n]) names False\<rparr>"
    and df': "body df' = (if opt then set_opt idx else id)
          (set_hdf5_index idx (map int [?L..<?L + ?n]) (body df))"
    by auto
  let ?sl = "Slice ?L (?L + ?n)"
  have pos: "map HDF5_INDEX (loc idx (body df')) = map int [?L..<?L + ?n]"
  proof -
    have "map HDF5_INDEX (loc idx (body df'))
          = map HDF5_INDEX (loc idx (set_hdf5_index idx (map int [?L..<?L + ?n]) (body df)))"
      by (simp add: df' loc_set_opt)
    also have "\<dots> = map int [?L..<?L + ?n]"
      by (rule loc_set_hdf5_index) simp
    finally show ?thesis .
  qed
  from to_hdf5_Inr(1) [OF th] have items:
    "to_hdf5_items (dsets grp) (pdb_items pdb_new) ?sl = Inr (dsets grp1)" by auto
  from from_molecules_Inr [OF pdb] obtain ar where
    dist: "distinct (map fst (pdb_items pdb_new))"
    and ar: "map_of (pdb_items pdb_new) ''atoms'' = Some ar"
    by (auto simp: DSET_NAMES_def)
  from to_hdf5_items_length [OF items dist, of "''atoms''"] ar assms(2,3)
  obtain atoms' where a': "dsets grp1 ''atoms'' = Some atoms'"
    and len: "length (rows atoms') = length_after ?L ?sl"
    by auto
  have after: "length_after ?L ?sl = ?L + ?n"
    by (simp add: length_after_Slice)
  have scale: "length (rows (index_dset grp')) = ?L + ?n"
    using to_hdf5_scale_length [OF th] after by (simp add: grp')
  have atoms': "\<exists>atoms'. dsets grp' ''atoms'' = Some atoms'
          \<and> length (rows atoms') = length (rows (index_dset grp'))"
    using a' len after scale by (simp add: grp')
  have incr: "sorted_wrt (<) (map HDF5_INDEX (loc idx (body df')))"
    unfolding pos by (simp add: sorted_wrt_map)
  have fresh: "list_all (\<lambda>p. int ?L \<le> p) (map HDF5_INDEX (loc idx (body df')))"
    unfolding pos by (simp add: list_all_iff)
  from pos scale atoms' incr fresh show ?thesis by (intro conjI)
qed

lemma upt3: "[0..<3] = [0, 1, 2]"
  by (simp add: eval_nat_numeral)

lemma example_from_molecules:
  "from_molecules (map MOL (loc [10, 11, 12] (body example_df))) [10, 11, 12]
   = Inr example_pdb3"
  by (simp add: from_molecules_def example_df_def example_row_def loc_def padded_def
      fit_row_def example_pdb3_def eval_nat_numeral)

lemma example_length_after:
  "length_after 0 (Slice 0 (Suc (Suc (Suc 0)))) = Suc (Suc (Suc 0))"
  using length_after_Slice [of 0 0 3] by (simp add: eval_nat_numeral)

lemma example_to_hdf5:
  "to_hdf5 example_pdb3 example_ligand (Slice 0 3) (\<not> opt) = Inr (example_stored3 opt)"
  by (simp add: to_hdf5_def example_ligand_def example_empty_def example_atoms3_def
      example_bonds3_def example_pdb3_def example_stored3_def grown_shape1_def resize_def
      row_width_def fit_row_def update_prop_dset_def expose_def sentinel_row_def Let_def
      upt3 eval_nat_numeral example_length_after)

lemma example_write_hdf5:
  "write_hdf5 example_ligand example_df [10, 11, 12] opt
   = Inr (example_written opt, example_df1 opt)"
proof -
  have atoms: "dsets example_ligand ''atoms'' = Some (example_empty (Some 0))"
    by (simp add: example_ligand_def)
  have n: "length (map MOL (loc [10, 11, 12] (body example_df))) = 3"
    by (simp add: example_df_def example_row_def loc_def)
  have paths: "dset_paths (example_stored3 opt) = Inr [''/ligand/atoms'', ''/ligand/bonds'']"
    by (simp add: dset_paths_def example_stored3_def example_ligand_def DSET_NAMES_def)
  have lg: "logger (example_stored3 opt) = []"
    by (simp add: example_stored3_def example_ligand_def)
  have sh: "set_hdf5_index [10, 11, 12] [0, 1, 2] (body example_df)
            = [(example_row 10)\<lparr>HDF5_INDEX := 0\<rparr>, (example_row 11)\<lparr>HDF5_INDEX := 1\<rparr>,
               (example_row 12)\<lparr>HDF5_INDEX := 2\<rparr>]"
    by (simp add: example_df_def example_row_def)
  show ?thesis
    unfolding write_hdf5_def Let_def atoms option.case n example_from_molecules
    by (simp add: example_empty_def example_to_hdf5 paths lg upt3 sh update_hdf5_log_def
        example_written_def example_entry1_def example_df1_def set_opt_def example_row_def
        example_df_def)
qed

theorem write_hdf5_allocation_witness:
  "write_hdf5 example_ligand example_df [10, 11, 12] False
     = Inr (example_written False, example_df1 False)
   \<and> write_hdf5 example_ligand example_df [10, 11, 12] True
     = Inr (example_written True, example_df1 True)
   \<and> length (rows (example_empty (Some 0))) = length (rows (index_dset example_ligand))
   \<and> length (rows (index_dset example_ligand)) = 0
   \<and> length (loc [10, 11, 12] (body example_df)) = 3
   \<and> map HDF5_INDEX (loc [10, 11, 12] (body (example_df1 False))) = [0, 1, 2]
   \<and> map HDF5_INDEX (loc [10, 11, 12] (body (example_df1 True))) = [0, 1, 2]
   \<and> length (rows (index_dset (example_written False))) = 3
   \<and> length (rows (index_dset (example_written True))) = 3"
proof -
  note r1 = example_write_hdf5 [of False] and r2 = example_write_hdf5 [of True]
  have atoms: "dsets example_ligand ''atoms'' = Some (example_empty (Some 0))"
    by (simp add: example_ligand_def)
  have al: "length (rows (example_empty (Some 0))) = length (rows (index_dset example_ligand))"
    by (simp add: example_ligand_def example_empty_def)
  have l0: "length (rows (index_dset example_ligand)) = 0"
    by (simp add: example_ligand_def example_empty_def)
  have n: "length (loc [10, 11, 12] (body example_df)) = 3"
    by (simp add: example_df_def example_row_def loc_def)
  note t1 = write_hdf5_allocation [OF r1 atoms al] and t2 = write_hdf5_allocation [OF r2 atoms al]
  have p1: "map HDF5_INDEX (loc [10, 11, 12] (body (example_df1 False))) = [0, 1, 2]"
    using t1 [THEN conjunct1] by (simp add: l0 n upt3)
  have p2: "map HDF5_INDEX (loc [10, 11, 12] (body (example_df1 True))) = [0, 1, 2]"
    using t2 [THEN conjunct1] by (simp add: l0 n upt3)
  have s1: "length (rows (index_dset (example_written False))) = 3"
    using t1 [THEN conjunct2, THEN conjunct1] by (simp add: l0 n)
  have s2: "length (rows (index_dset (example_written True))) = 3"
    using t2 [THEN conjunct2, THEN conjunct1] by (simp add: l0 n)
  from r1 r2 al l0 n p1 p2 s1 s2 show ?thesis by (intro conjI)
qed

text \<open>
  C9.  When the labels in effect (the \<open>columns\<close> argument, or the columns of the batch
  when it is \<open>None\<close>) are not a 2-level \<open>MultiIndex\<close>, \<open>from_df\<close> raises the \<open>ValueError\<close>
  with the file as it was and an empty trace: the probe has not run, the file has not
  been opened, and nothing in it has been written.
\<close>

theorem from_df_rejects_columns:
  "nlevels (case cols of None \<Rightarrow> columns df | Some c \<Rightarrow> c) \<noteq> 2 \<Longrightarrow>
   from_df file_free update_hdf5_settings f df df_bool name cols overwrite status
     = Some (Raised (ValueError ''Expected a 2-level MultiIndex'') (Some f), [])"
  by (simp add: from_df_def)

theorem from_df_rejects_columns_witness:
  "from_df (\<lambda>k. True) (\<lambda>f d n. Inr f) [''ligand'' \<mapsto> example_ligand]
     (example_df\<lparr>columns := Index [''mol'', ''hdf5 index'', ''opt'', ''E'']\<rparr>)
     (Some example_df_bool) ''ligand'' None False None
   = Some (Raised (ValueError ''Expected a 2-level MultiIndex'')
             (Some [''ligand'' \<mapsto> example_ligand]), [])
   \<and> from_df (\<lambda>k. True) (\<lambda>f d n. Inr f) [''ligand'' \<mapsto> example_ligand] example_df
     (Some example_df_bool) ''ligand'' (Some (MultiIndex 3 [[''E'', [], []]])) False None
   = Some (Raised (ValueError ''Expected a 2-level MultiIndex'')
             (Some [''ligand'' \<mapsto> example_ligand]), [])"
  using from_df_rejects_columns [where cols = None
          and df = "example_df\<lparr>columns := Index [''mol'', ''hdf5 index'', ''opt'', ''E'']\<rparr>"
          and file_free = "\<lambda>k. True" and update_hdf5_settings = "\<lambda>f d n. Inr f"
          and f = "[''ligand'' \<mapsto> example_ligand]" and df_bool = "Some example_df_bool"
          and name = "''ligand''" and overwrite = False and status = None]
        from_df_rejects_columns [where cols = "Some (MultiIndex 3 [[''E'', [], []]])"
          and df = example_df
          and file_free = "\<lambda>k. True" and update_hdf5_settings = "\<lambda>f d n. Inr f"
          and f = "[''ligand'' \<mapsto> example_ligand]" and df_bool = "Some example_df_bool"
          and name = "''ligand''" and overwrite = False and status = None]
  by simp











text \<open>
  C4.  \<open>_update_properties\<close> raises at line 333, before its loop: for every group, batch
  with no column labelled \<open>levels\<close>, mask and labels, and with \<open>overwrite\<close> set or not,
  the call ends with the \<open>AttributeError\<close> and the group as it was.  No row of a
  property dataset is written, whatever the mask says.
\<close>

theorem update_properties_raises:
  "''levels'' \<notin> set (level0 (columns df)) \<Longrightarrow>
   update_properties grp df df_bool cols overwrite
     = Inl (AttributeError ''DataFrame object has no attribute levels'', grp)"
  by (simp add: update_properties_def df_levels0_def)


lemma example_level0:
  "level0 (columns example_df) = [''mol'', ''hdf5 index'', ''opt'', ''E'']"
  by (simp add: level0_def example_df_def)

theorem update_properties_raises_witness:
  "''levels'' \<notin> set (level0 (columns (example_df1 False)))
   \<and> update_properties (example_written False) (example_df1 False) example_df_bool
       (columns example_df) False
     = Inl (AttributeError ''DataFrame object has no attribute levels'', example_written False)
   \<and> update_properties (example_written False) (example_df1 False) example_df_bool
       (columns example_df) True
     = Inl (AttributeError ''DataFrame object has no attribute levels'', example_written False)
   \<and> map fst (prop_cols (example_df1 False)) = [''E'']
   \<and> properties (example_written False) = []"
proof -
  have c: "columns (example_df1 False) = columns example_df"
    by (simp add: example_df1_def)
  have h: "''levels'' \<notin> set (level0 (columns (example_df1 False)))"
    unfolding c example_level0 by simp
  note t1 = update_properties_raises [OF h, of "example_written False" example_df_bool
              "columns example_df" False]
    and t2 = update_properties_raises [OF h, of "example_written False" example_df_bool
              "columns example_df" True]
  have p: "map fst (prop_cols (example_df1 False)) = [''E'']"
    by (simp add: example_df1_def example_df_def)
  have q: "properties (example_written False) = []"
    by (simp add: example_written_def example_stored3_def example_ligand_def)
  from h t1 t2 p q show ?thesis by (intro conjI)
qed




end
